theory Spec2Isabelle
  imports Main "HOL-Library.Multiset" "HOL-Library.Sublist"
begin

section \<open>Strings: the parts of Go's \<open>strings\<close> and \<open>strconv\<close> packages the query engine calls\<close>

text \<open>
  A Go string is a sequence of bytes, here a \<open>string\<close> (a list of 8-bit characters);
  \<open>len(s)\<close> is \<open>length s\<close>. Query texts and names are treated as ASCII: \<open>ToLower\<close>
  maps \<open>A\<close>..\<open>Z\<close> to \<open>a\<close>..\<open>z\<close> and leaves every other byte alone, and \<open>Fields\<close>
  splits around the six ASCII white space bytes. (On text outside ASCII Go also folds
  non-ASCII letters and splits at Unicode spaces; that part of the two library
  functions is outside this model.)
\<close>

fun HasPrefix :: "string \<Rightarrow> string \<Rightarrow> bool" where
  "HasPrefix s [] = True"
| "HasPrefix [] (p # ps) = False"
| "HasPrefix (c # cs) (p # ps) = (c = p \<and> HasPrefix cs ps)"

text \<open>\<open>strings.Contains(s, substr)\<close>: \<open>substr\<close> occurs in \<open>s\<close> as a contiguous run.\<close>

fun Contains :: "string \<Rightarrow> string \<Rightarrow> bool" where
  "Contains [] substr = (substr = [])"
| "Contains (c # cs) substr = (HasPrefix (c # cs) substr \<or> Contains cs substr)"

definition lowerByte :: "char \<Rightarrow> char" where
  "lowerByte c =
     (let n = (of_char c :: nat) in if 65 \<le> n \<and> n \<le> 90 then char_of (n + 32) else c)"

definition ToLower :: "string \<Rightarrow> string" where
  "ToLower s = map lowerByte s"

definition isSpace :: "char \<Rightarrow> bool" where
  "isSpace c = ((of_char c :: nat) \<in> {9, 10, 11, 12, 13, 32})"

text \<open>
  \<open>strings.Fields\<close>: the maximal runs of non-space bytes, in order. The first argument
  is the word being collected.
\<close>

fun fieldsFrom :: "string \<Rightarrow> string \<Rightarrow> string list" where
  "fieldsFrom w [] = (if w = [] then [] else [w])"
| "fieldsFrom w (c # cs) =
     (if isSpace c then (if w = [] then fieldsFrom [] cs else w # fieldsFrom [] cs)
      else fieldsFrom (w @ [c]) cs)"

definition Fields :: "string \<Rightarrow> string list" where
  "Fields s = fieldsFrom [] s"

definition isDigit :: "char \<Rightarrow> bool" where
  "isDigit c = (let n = (of_char c :: nat) in 48 \<le> n \<and> n \<le> 57)"

definition digitVal :: "char \<Rightarrow> nat" where
  "digitVal c = of_char c - 48"

text \<open>The value of a run of decimal digits, most significant first.\<close>

definition decimal :: "string \<Rightarrow> nat" where
  "decimal ds = foldl (\<lambda>acc c. 10 * acc + digitVal c) 0 ds"

text \<open>
  \<open>strconv.Atoi\<close>: an optional sign, then one or more decimal digits and nothing else;
  the value must fit Go's 64-bit \<open>int\<close>. \<open>None\<close> is the non-nil error.
\<close>

definition Atoi :: "string \<Rightarrow> int option" where
  "Atoi s =
     (let (neg, ds) =
            (case s of
               c # cs \<Rightarrow> if c = CHR ''-'' then (True, cs)
                         else if c = CHR ''+'' then (False, cs) else (False, s)
             | [] \<Rightarrow> (False, s))
      in if ds = [] \<or> \<not> list_all isDigit ds then None
         else let v = (if neg then - int (decimal ds) else int (decimal ds))
              in if - (2 ^ 63) \<le> v \<and> v < 2 ^ 63 then Some v else None)"

text \<open>\<open>fmt.Sprintf("%d", n)\<close> for a count or an ordinal, which are never negative.\<close>

fun itoa :: "nat \<Rightarrow> string" where
  "itoa n = (if n < 10 then [char_of (48 + n)] else itoa (n div 10) @ [char_of (48 + n mod 10)])"

declare itoa.simps [simp del]

section \<open>The record model (\<open>pkg/model/employee.go\<close>)\<close>

record EmployeeInfo =
  FirstName :: string
  LastName :: string
  Email :: string
  Title :: string
  Deactivated :: bool
  DeactivatedDate :: string

text \<open>
  Go's \<open>(string, error)\<close> results are values of \<open>error + string\<close>: \<open>Inr s\<close> is the
  pair \<open>(s, nil)\<close>, and \<open>Inl e\<close> is the pair of the text \<open>"Error: ..."\<close> with the
  non-nil error \<open>e\<close>.
\<close>

datatype error = UnmarshalTypeError

section \<open>Result formatting (\<open>pkg/tools/json/json_query.go\<close>)\<close>

definition tableRow :: "EmployeeInfo \<Rightarrow> string" where
  "tableRow emp =
     (let name = FirstName emp @ '' '' @ LastName emp;
          status = (if Deactivated emp then ''Deactivated'' else ''Active'');
          deactivationDate = (if Deactivated emp then DeactivatedDate emp else '''')
      in ''| '' @ name @ '' | '' @ Title emp @ '' | '' @ Email emp @ '' | '' @ status
         @ '' | '' @ deactivationDate @ '' |'' @ [CHR 0x0A])"

definition tableHeader :: string where
  "tableHeader = ''| Name | Title | Email | Status | Deactivation Date |'' @ [CHR 0x0A]"

definition tableSeparator :: string where
  "tableSeparator = ''|------|-------|-------|--------|------------------|'' @ [CHR 0x0A]"

definition noEmployeesFound :: string where
  "noEmployeesFound = ''No employees found matching the criteria.''"

definition FormatAsMarkdownTable :: "EmployeeInfo list \<Rightarrow> error + string" where
  "FormatAsMarkdownTable employees =
     (if length employees = 0 then Inr noEmployeesFound
      else Inr (foldl (\<lambda>result emp. result @ tableRow emp)
                  (tableHeader @ tableSeparator) employees))"

text \<open>One line of the list format; \<open>i\<close> is the index of the record in the slice.\<close>

definition listLine :: "nat \<Rightarrow> EmployeeInfo \<Rightarrow> string" where
  "listLine i emp =
     itoa (i + 1) @ ''. '' @ FirstName emp @ '' '' @ LastName emp
     @ (if Title emp \<noteq> '''' then '' - '' @ Title emp else '''')
     @ (if Deactivated emp
        then (if DeactivatedDate emp \<noteq> ''''
              then '' (Deactivated on '' @ DeactivatedDate emp @ '')''
              else '' (Deactivated)'')
        else '''')
     @ [CHR 0x0A]"

definition FormatResults :: "EmployeeInfo list \<Rightarrow> error + string" where
  "FormatResults employees =
     (if length employees = 0 then Inr noEmployeesFound
      else Inr (foldl (\<lambda>result (i, emp). result @ listLine i emp)
                  (''Found '' @ itoa (length employees) @ '' employees:'' @ [CHR 0x0A, CHR 0x0A])
                  (zip [0 ..< length employees] employees)))"

text \<open>The narrative of the single-person lookup, built from one record.\<close>

definition narrative :: "EmployeeInfo \<Rightarrow> string" where
  "narrative emp =
     ''Employee: '' @ FirstName emp @ '' '' @ LastName emp @ [CHR 0x0A]
     @ (if Title emp \<noteq> '''' then ''Title: '' @ Title emp @ [CHR 0x0A] else '''')
     @ (if Email emp \<noteq> '''' then ''Email: '' @ Email emp @ [CHR 0x0A] else '''')
     @ (if Deactivated emp
        then ''Status: Deactivated'' @ [CHR 0x0A]
             @ (if DeactivatedDate emp \<noteq> ''''
                then ''Deactivation Date: '' @ DeactivatedDate emp @ [CHR 0x0A] else '''')
        else ''Status: Active'' @ [CHR 0x0A])"

section \<open>Intent classification\<close>

definition specificPatterns :: "string list" where
  "specificPatterns =
     [''when was'', ''when did'', ''what date'', ''who is'', ''information about'',
      ''details for'', ''details about'', ''find employee'', ''search for'', ''look for'',
      ''locate'', ''get info on'']"

definition isSpecificEmployeeSearch :: "string \<Rightarrow> bool" where
  "isSpecificEmployeeSearch query =
     (if list_ex (\<lambda>pattern. Contains query pattern) specificPatterns then True
      else if Contains query ''find''
      then (if Contains query ''find last'' \<or> Contains query ''find top''
               \<or> Contains query ''find the last'' \<or> Contains query ''find the top''
            then False else True)
      else False)"

section \<open>JSON values and the query builder (library \<open>gojsonq\<close>)\<close>

text \<open>
  The document as \<open>gojsonq\<close> holds it after decoding the bytes: Go's \<open>interface{}\<close>
  with \<open>nil\<close>, \<open>bool\<close>, \<open>float64\<close>, \<open>string\<close>, \<open>[]interface{}\<close> and
  \<open>map[string]interface{}\<close>. An object is an association list with distinct keys,
  read with \<open>map_of\<close>. The payload of a number is never inspected by this program, so
  a number carries an integer. Bytes that are not JSON leave the content \<open>nil\<close>, which
  is \<open>JNull\<close>.

  The library is not part of the repository; the definitions of this section follow its
  version 2 sources (\<open>jsonq.go\<close>, \<open>query.go\<close>, \<open>helper.go\<close>), restricted to the
  operators and fields this program uses. Its list of recorded errors is never read by
  the program and is left out.
\<close>

datatype jval =
    JNull
  | JBool bool
  | JNumber int
  | JString string
  | JArray "jval list"
  | JObject "(string \<times> jval) list"

text \<open>The two operators the program passes: \<open>"="\<close> and \<open>"contains"\<close>.\<close>

datatype operator = OpEq | OpContains

record query =
  key :: string
  operator :: operator
  val :: jval

record JSONQ =
  rootJSONContent :: jval
  jsonContent :: jval
  queries :: "query list list"
  queryIndex :: nat

text \<open>\<open>gojsonq.New().FromString(string(jsonData))\<close>, on the decoded document.\<close>

definition FromString :: "jval \<Rightarrow> JSONQ" where
  "FromString doc = \<lparr>rootJSONContent = doc, jsonContent = doc, queries = [], queryIndex = 0\<rparr>"

definition Reset :: "JSONQ \<Rightarrow> JSONQ" where
  "Reset j = j\<lparr>jsonContent := rootJSONContent j, queries := [], queryIndex := 0\<rparr>"

text \<open>
  \<open>Where\<close> opens the first group of conditions when there is none, and otherwise adds
  to the group at \<open>queryIndex\<close> (Go panics when that index is out of range; the program
  calls \<open>Where\<close> only right after \<open>Reset\<close>, where the first branch is taken).
\<close>

definition Where :: "string \<Rightarrow> operator \<Rightarrow> jval \<Rightarrow> JSONQ \<Rightarrow> JSONQ" where
  "Where k cond v j =
     (let q = \<lparr>key = k, operator = cond, val = v\<rparr>
      in if queryIndex j = 0 \<and> length (queries j) = 0
         then j\<lparr>queries := queries j @ [[q]]\<rparr>
         else j\<lparr>queries := (queries j)[queryIndex j := (queries j ! queryIndex j) @ [q]]\<rparr>)"

definition OrWhere :: "string \<Rightarrow> operator \<Rightarrow> jval \<Rightarrow> JSONQ \<Rightarrow> JSONQ" where
  "OrWhere k cond v j =
     j\<lparr>queryIndex := queryIndex j + 1,
       queries := queries j @ [[\<lparr>key = k, operator = cond, val = v\<rparr>]]\<rparr>"

text \<open>
  \<open>eq\<close> compares the field with the given value (a \<open>bool\<close> in this program);
  \<open>strContains\<close> is the case-insensitive substring test, false when either side is
  not a string.
\<close>

definition eq :: "jval \<Rightarrow> jval \<Rightarrow> bool" where
  "eq x y = (x = y)"

definition strContains :: "jval \<Rightarrow> jval \<Rightarrow> bool" where
  "strContains x y =
     (case x of
        JString xv \<Rightarrow> (case y of JString yv \<Rightarrow> Contains (ToLower xv) (ToLower yv) | _ \<Rightarrow> False)
      | _ \<Rightarrow> False)"

definition queryMap :: "operator \<Rightarrow> jval \<Rightarrow> jval \<Rightarrow> bool" where
  "queryMap cond = (case cond of OpEq \<Rightarrow> eq | OpContains \<Rightarrow> strContains)"

text \<open>
  \<open>getNestedValue\<close> for a key without separator: the field of the object, or an error
  (\<open>None\<close>) when the object has no such key.
\<close>

definition getNestedValue :: "(string \<times> jval) list \<Rightarrow> string \<Rightarrow> jval option" where
  "getNestedValue vm node = map_of vm node"

text \<open>
  \<open>findInMap\<close>: the object passes when some group of conditions holds in full; a
  condition on a missing key fails.
\<close>

definition queryHolds :: "(string \<times> jval) list \<Rightarrow> query \<Rightarrow> bool" where
  "queryHolds vm q =
     (case getNestedValue vm (key q) of
        None \<Rightarrow> False
      | Some nv \<Rightarrow> queryMap (operator q) nv (val q))"

definition findInMap :: "JSONQ \<Rightarrow> (string \<times> jval) list \<Rightarrow> jval list" where
  "findInMap j vm =
     (let orPassed = list_ex (\<lambda>qList. list_all (queryHolds vm) qList) (queries j)
      in if orPassed then [JObject vm] else [])"

definition findInArray :: "JSONQ \<Rightarrow> jval list \<Rightarrow> jval list" where
  "findInArray j aa =
     concat (map (\<lambda>a. case a of JObject m \<Rightarrow> findInMap j m | _ \<Rightarrow> []) aa)"

definition processQuery :: "JSONQ \<Rightarrow> JSONQ" where
  "processQuery j =
     (case jsonContent j of
        JArray aa \<Rightarrow> j\<lparr>jsonContent := JArray (findInArray j aa)\<rparr>
      | _ \<Rightarrow> j)"

definition prepare :: "JSONQ \<Rightarrow> JSONQ" where
  "prepare j =
     (let j = (if length (queries j) > 0 then processQuery j else j)
      in j\<lparr>queryIndex := 0\<rparr>)"

text \<open>
  \<open>Get\<close> runs the pending conditions and returns the content; the builder keeps the
  filtered content until the next \<open>Reset\<close>.
\<close>

definition Get :: "JSONQ \<Rightarrow> jval \<times> JSONQ" where
  "Get j = (let j = prepare j in (jsonContent j, j))"

section \<open>Decoding the result into records (\<open>encoding/json\<close>)\<close>

text \<open>
  \<open>json.Marshal(result)\<close> followed by \<open>json.Unmarshal(resultBytes, &employees)\<close>.
  Marshalling a decoded JSON value cannot fail, so only the second step has an error
  branch. A field of the struct takes the value under its tag; a missing key or
  \<open>null\<close> leaves the zero value; a value of the wrong JSON type is an
  \<open>UnmarshalTypeError\<close>. Keys are compared as written in the tags.
\<close>

definition stringField :: "(string \<times> jval) list \<Rightarrow> string \<Rightarrow> string option" where
  "stringField m tag =
     (case map_of m tag of
        None \<Rightarrow> Some ''''
      | Some JNull \<Rightarrow> Some ''''
      | Some (JString s) \<Rightarrow> Some s
      | Some _ \<Rightarrow> None)"

definition boolField :: "(string \<times> jval) list \<Rightarrow> string \<Rightarrow> bool option" where
  "boolField m tag =
     (case map_of m tag of
        None \<Rightarrow> Some False
      | Some JNull \<Rightarrow> Some False
      | Some (JBool b) \<Rightarrow> Some b
      | Some _ \<Rightarrow> None)"

definition zeroEmployee :: EmployeeInfo where
  "zeroEmployee = \<lparr>FirstName = '''', LastName = '''', Email = '''', Title = '''',
                    Deactivated = False, DeactivatedDate = ''''\<rparr>"

definition unmarshalEmployee :: "jval \<Rightarrow> EmployeeInfo option" where
  "unmarshalEmployee v =
     (case v of
        JObject m \<Rightarrow>
          (case (stringField m ''first_name'', stringField m ''last_name'',
                 stringField m ''email'', stringField m ''title'',
                 boolField m ''deactivated'', stringField m ''deactivated_date'') of
             (Some fn, Some ln, Some em, Some ti, Some de, Some dd) \<Rightarrow>
               Some \<lparr>FirstName = fn, LastName = ln, Email = em, Title = ti,
                     Deactivated = de, DeactivatedDate = dd\<rparr>
           | _ \<Rightarrow> None)
      | JNull \<Rightarrow> Some zeroEmployee
      | _ \<Rightarrow> None)"

fun unmarshalAll :: "jval list \<Rightarrow> EmployeeInfo list option" where
  "unmarshalAll [] = Some []"
| "unmarshalAll (v # vs) =
     (case unmarshalEmployee v of
        None \<Rightarrow> None
      | Some e \<Rightarrow> (case unmarshalAll vs of None \<Rightarrow> None | Some es \<Rightarrow> Some (e # es)))"

definition unmarshalEmployees :: "jval \<Rightarrow> error + EmployeeInfo list" where
  "unmarshalEmployees result =
     (case result of
        JArray vs \<Rightarrow> (case unmarshalAll vs of None \<Rightarrow> Inl UnmarshalTypeError | Some es \<Rightarrow> Inr es)
      | JNull \<Rightarrow> Inr []
      | _ \<Rightarrow> Inl UnmarshalTypeError)"

text \<open>
  The directory file is written upstream by \<open>json.Marshal\<close> of a slice of records:
  each record is an object with the six tagged fields, \<open>deactivated_date\<close> omitted
  when empty.
\<close>

definition marshalEmployee :: "EmployeeInfo \<Rightarrow> jval" where
  "marshalEmployee e =
     JObject ([(''first_name'', JString (FirstName e)), (''last_name'', JString (LastName e)),
               (''email'', JString (Email e)), (''title'', JString (Title e)),
               (''deactivated'', JBool (Deactivated e))]
              @ (if DeactivatedDate e = '''' then []
                 else [(''deactivated_date'', JString (DeactivatedDate e))]))"

definition marshalEmployees :: "EmployeeInfo list \<Rightarrow> jval" where
  "marshalEmployees es = JArray (map marshalEmployee es)"

section \<open>Dates (\<open>time.Parse\<close> with the layout \<open>2006-01-02\<close>)\<close>

text \<open>
  The layout accepts exactly four digits, a hyphen, two digits, a hyphen and two
  digits, with the month in 1..12 and the day within the month; anything else is an
  error (\<open>None\<close>). The parsed time is midnight UTC of that day, kept here as
  (year, month, day); \<open>After\<close> compares two such times.
\<close>

definition isLeap :: "nat \<Rightarrow> bool" where
  "isLeap year = (year mod 4 = 0 \<and> (year mod 100 \<noteq> 0 \<or> year mod 400 = 0))"

definition daysIn :: "nat \<Rightarrow> nat \<Rightarrow> nat" where
  "daysIn m year =
     (if m = 2 then (if isLeap year then 29 else 28)
      else if m = 4 \<or> m = 6 \<or> m = 9 \<or> m = 11 then 30 else 31)"

type_synonym date = "nat \<times> nat \<times> nat"

definition Parse :: "string \<Rightarrow> date option" where
  "Parse v =
     (let y = take 4 v; m = take 2 (drop 5 v); d = take 2 (drop 8 v)
      in if length v = 10 \<and> list_all isDigit y \<and> v ! 4 = CHR ''-''
            \<and> list_all isDigit m \<and> v ! 7 = CHR ''-'' \<and> list_all isDigit d
         then let year = decimal y; month = decimal m; day = decimal d
              in if 1 \<le> month \<and> month \<le> 12 \<and> 1 \<le> day \<and> day \<le> daysIn month year
                 then Some (year, month, day) else None
         else None)"

fun After :: "date \<Rightarrow> date \<Rightarrow> bool" where
  "After (y1, m1, d1) (y2, m2, d2) =
     (y2 < y1 \<or> (y2 = y1 \<and> (m2 < m1 \<or> (m2 = m1 \<and> d2 < d1))))"

section \<open>The list pipeline of \<open>ProcessQuery\<close>\<close>

text \<open>Lines 41-47: the status filter added to the query builder.\<close>

definition statusFilter :: "string \<Rightarrow> JSONQ \<Rightarrow> JSONQ" where
  "statusFilter query jq =
     (if Contains query ''deactivat'' \<or> Contains query ''terminat''
      then Where ''deactivated'' OpEq (JBool True) jq
      else if Contains query ''active'' \<and> \<not> Contains query ''deactivat''
      then Where ''deactivated'' OpEq (JBool False) jq
      else jq)"

text \<open>Lines 76-107: the comparison function handed to \<open>sort.Slice\<close>.\<close>

definition dateLess :: "EmployeeInfo \<Rightarrow> EmployeeInfo \<Rightarrow> bool" where
  "dateLess ei ej =
     (let dateI = DeactivatedDate ei; dateJ = DeactivatedDate ej
      in if dateI = '''' \<and> dateJ = '''' then False
         else if dateI = '''' then False
         else if dateJ = '''' then True
         else (let timeI = Parse dateI; timeJ = Parse dateJ
               in if timeI = None \<and> timeJ = None then False
                  else if timeI = None then False
                  else if timeJ = None then True
                  else After (the timeI) (the timeJ)))"

text \<open>
  Lines 73-109. \<open>sort.Slice\<close> belongs to Go's standard library; the pipeline takes it
  as the parameter \<open>slice\<close>, a function from the comparison and the slice to the
  reordered slice.
\<close>

definition wantsDateSort :: "string \<Rightarrow> bool" where
  "wantsDateSort query =
     (Contains query ''last'' \<or> Contains query ''recent''
      \<or> Contains query ''sort by date'' \<or> Contains query ''sort by deactivation'')"

definition sortByDate ::
  "((EmployeeInfo \<Rightarrow> EmployeeInfo \<Rightarrow> bool) \<Rightarrow> EmployeeInfo list \<Rightarrow> EmployeeInfo list)
   \<Rightarrow> string \<Rightarrow> EmployeeInfo list \<Rightarrow> EmployeeInfo list" where
  "sortByDate slice query employees =
     (if wantsDateSort query then slice dateLess employees else employees)"

text \<open>
  Lines 119-142: the scan for a numeric limit. The recursion goes over the words from
  index \<open>i\<close> on: \<open>word\<close> is \<open>words[i]\<close> and \<open>i+1 < len(words)\<close> says that the rest is
  not empty. A \<open>break\<close> returns the truncated slice.
\<close>

definition limitOf :: "string \<Rightarrow> nat \<Rightarrow> nat option" where
  "limitOf w n =
     (case Atoi w of
        None \<Rightarrow> None
      | Some num \<Rightarrow> if num > 0 \<and> num < int n then Some (nat num) else None)"

fun limitScan :: "string list \<Rightarrow> EmployeeInfo list \<Rightarrow> EmployeeInfo list" where
  "limitScan [] employees = employees"
| "limitScan (word # rest) employees =
     (case (if (word = ''last'' \<or> word = ''top'' \<or> word = ''latest'') \<and> rest \<noteq> []
            then limitOf (hd rest) (length employees) else None) of
        Some num \<Rightarrow> take num employees
      | None \<Rightarrow>
          (case (if rest \<noteq> [] \<and> (hd rest = ''employees'' \<or> hd rest = ''employee'')
                 then limitOf word (length employees) else None) of
             Some num \<Rightarrow> take num employees
           | None \<Rightarrow> limitScan rest employees))"

definition limitResults :: "string \<Rightarrow> EmployeeInfo list \<Rightarrow> EmployeeInfo list" where
  "limitResults query employees = limitScan (Fields query) employees"

text \<open>Lines 150-157: the choice of the output format.\<close>

definition formatOutput :: "string \<Rightarrow> EmployeeInfo list \<Rightarrow> error + string" where
  "formatOutput query employees =
     (if Contains query ''table'' \<or> Contains query ''markdown''
      then FormatAsMarkdownTable employees
      else FormatResults employees)"

section \<open>The single-person lookup\<close>

text \<open>
  \<open>findSpecificEmployee\<close>: the loop over \<open>i\<close> from 0 to \<open>len(words)-2\<close> is the recursion
  over the words from index \<open>i\<close> on, with \<open>words[i]\<close> and \<open>words[i+1]\<close> the first two.
  Every \<open>continue\<close> goes on with the next index; the query builder is carried along.
\<close>

definition notFound :: string where
  "notFound = ''Employee not found in the dataset.''"

fun findLoop :: "JSONQ \<Rightarrow> string list \<Rightarrow> error + string" where
  "findLoop jq (potentialFirstName # potentialLastName # rest) =
     (if length potentialFirstName < 3 \<or> length potentialLastName < 3
      then findLoop jq (potentialLastName # rest)
      else
        (let (result, jq') =
               Get (OrWhere ''last_name'' OpContains (JString potentialLastName)
                     (OrWhere ''first_name'' OpContains (JString potentialFirstName)
                       (Reset jq)))
         in case unmarshalEmployees result of
              Inl err \<Rightarrow> findLoop jq' (potentialLastName # rest)
            | Inr [] \<Rightarrow> findLoop jq' (potentialLastName # rest)
            | Inr (emp # others) \<Rightarrow> Inr (narrative emp)))"
| "findLoop jq words = Inr notFound"

definition findSpecificEmployee :: "JSONQ \<Rightarrow> string \<Rightarrow> error + string" where
  "findSpecificEmployee jq query = findLoop jq (Fields query)"

section \<open>\<open>ProcessQuery\<close>\<close>

text \<open>
  The console output, and with it \<open>jq.Count()\<close>, \<open>totalCount\<close>, \<open>originalCount\<close> and
  \<open>limitApplied\<close>, which only feed it, are left out. The first argument is
  \<open>sort.Slice\<close>, the second the decoded \<open>jsonData\<close>.
\<close>

definition ProcessQuery ::
  "((EmployeeInfo \<Rightarrow> EmployeeInfo \<Rightarrow> bool) \<Rightarrow> EmployeeInfo list \<Rightarrow> EmployeeInfo list)
   \<Rightarrow> jval \<Rightarrow> string \<Rightarrow> error + string" where
  "ProcessQuery slice jsonData query0 =
     (let jq = Reset (prepare (FromString jsonData));
          query = ToLower query0;
          jq = statusFilter query jq
      in if isSpecificEmployeeSearch query then findSpecificEmployee jq query
         else (let (result, jq') = Get jq
               in case unmarshalEmployees result of
                    Inl err \<Rightarrow> Inl err
                  | Inr employees \<Rightarrow>
                      formatOutput query
                        (limitResults query (sortByDate slice query employees))))"

section \<open>\<open>sort.Slice\<close> (Go's standard library, package \<open>sort\<close>)\<close>

text \<open>
  \<open>sort.Slice(x, less)\<close> runs the pattern-defeating quicksort \<open>pdqsort_func\<close> of the
  package (file \<open>zsortfunc.go\<close>, Go 1.19 and later) on the slice, with
  \<open>data.Less(i, j)\<close> the given function (here \<open>lt\<close>) on the elements now at \<open>i\<close> and \<open>j\<close> and
  \<open>data.Swap(i, j)\<close> their exchange. The package documents that the sort is not
  guaranteed to be stable. The definitions below follow the package function by
  function; the slice is a list, passed in and returned.

  Indices are natural numbers; only the right-hand index \<open>j\<close> of the two partition
  loops, which the code decrements under no other guard than \<open>i <= j\<close>, is a signed
  integer as in Go. The pseudo-random numbers of \<open>breakPatterns_func\<close> (an xorshift
  generator seeded with the length) are the parameter \<open>random\<close>: \<open>random n k\<close> is the
  value of the call number \<open>k\<close> of \<open>Next\<close> for the seed \<open>n\<close>.
\<close>

definition Less :: "('a \<Rightarrow> 'a \<Rightarrow> bool) \<Rightarrow> 'a list \<Rightarrow> nat \<Rightarrow> nat \<Rightarrow> bool" where
  "Less lt data i j = lt (data ! i) (data ! j)"

definition Swap :: "'a list \<Rightarrow> nat \<Rightarrow> nat \<Rightarrow> 'a list" where
  "Swap data i j = data[i := data ! j, j := data ! i]"

subsection \<open>Insertion sort\<close>

text \<open>The inner loop \<open>for j := i; j > a && data.Less(j, j-1); j--\<close>.\<close>

fun insertionInner :: "('a \<Rightarrow> 'a \<Rightarrow> bool) \<Rightarrow> 'a list \<Rightarrow> nat \<Rightarrow> nat \<Rightarrow> 'a list" where
  "insertionInner lt data a j =
     (if j > a \<and> Less lt data j (j - 1)
      then insertionInner lt (Swap data j (j - 1)) a (j - 1)
      else data)"

declare insertionInner.simps [simp del]

text \<open>The outer loop \<open>for i := a + 1; i < b; i++\<close>, from \<open>i\<close> on.\<close>

function insertionOuter ::
  "('a \<Rightarrow> 'a \<Rightarrow> bool) \<Rightarrow> 'a list \<Rightarrow> nat \<Rightarrow> nat \<Rightarrow> nat \<Rightarrow> 'a list" where
  "insertionOuter lt data a b i =
     (if i < b then insertionOuter lt (insertionInner lt data a i) a b (i + 1) else data)"
  by pat_completeness auto
termination
  by (relation "measure (\<lambda>(lt, data, a, b, i). b - i)") auto

declare insertionOuter.simps [simp del]

definition insertionSort_func :: "('a \<Rightarrow> 'a \<Rightarrow> bool) \<Rightarrow> 'a list \<Rightarrow> nat \<Rightarrow> nat \<Rightarrow> 'a list" where
  "insertionSort_func lt data a b = insertionOuter lt data a b (a + 1)"

subsection \<open>Heap sort\<close>

function siftDownFrom ::
  "('a \<Rightarrow> 'a \<Rightarrow> bool) \<Rightarrow> 'a list \<Rightarrow> nat \<Rightarrow> nat \<Rightarrow> nat \<Rightarrow> 'a list" where
  "siftDownFrom lt data hi first root =
     (let child = 2 * root + 1
      in if child \<ge> hi then data
         else (let child = (if child + 1 < hi \<and> Less lt data (first + child) (first + child + 1)
                            then child + 1 else child)
               in if \<not> Less lt data (first + root) (first + child) then data
                  else siftDownFrom lt (Swap data (first + root) (first + child)) hi first child))"
  by pat_completeness auto
termination
  by (relation "measure (\<lambda>(lt, data, hi, first, root). hi - root)") (auto simp: Let_def)

declare siftDownFrom.simps [simp del]

definition siftDown_func ::
  "('a \<Rightarrow> 'a \<Rightarrow> bool) \<Rightarrow> 'a list \<Rightarrow> nat \<Rightarrow> nat \<Rightarrow> nat \<Rightarrow> 'a list" where
  "siftDown_func lt data lo hi first = siftDownFrom lt data hi first lo"

text \<open>
  The two loops of \<open>heapSort_func\<close> count \<open>i\<close> down to 0; the last argument is the
  number of rounds left, \<open>i + 1\<close>.
\<close>

fun heapBuild :: "('a \<Rightarrow> 'a \<Rightarrow> bool) \<Rightarrow> 'a list \<Rightarrow> nat \<Rightarrow> nat \<Rightarrow> nat \<Rightarrow> 'a list" where
  "heapBuild lt data hi first 0 = data"
| "heapBuild lt data hi first (Suc i) =
     heapBuild lt (siftDown_func lt data i hi first) hi first i"

fun heapPop :: "('a \<Rightarrow> 'a \<Rightarrow> bool) \<Rightarrow> 'a list \<Rightarrow> nat \<Rightarrow> nat \<Rightarrow> 'a list" where
  "heapPop lt data first 0 = data"
| "heapPop lt data first (Suc i) =
     heapPop lt (siftDown_func lt (Swap data first (first + i)) 0 i first) first i"

definition heapSort_func :: "('a \<Rightarrow> 'a \<Rightarrow> bool) \<Rightarrow> 'a list \<Rightarrow> nat \<Rightarrow> nat \<Rightarrow> 'a list" where
  "heapSort_func lt data a b =
     (let first = a; hi = b - a;
          data = heapBuild lt data hi first ((hi - 1) div 2 + 1)
      in heapPop lt data first hi)"

subsection \<open>Choosing the pivot\<close>

datatype sortedHint = unknownHint | increasingHint | decreasingHint

definition order2_func ::
  "('a \<Rightarrow> 'a \<Rightarrow> bool) \<Rightarrow> 'a list \<Rightarrow> nat \<Rightarrow> nat \<Rightarrow> nat \<Rightarrow> nat \<times> nat \<times> nat" where
  "order2_func lt data a b swaps =
     (if Less lt data b a then (b, a, swaps + 1) else (a, b, swaps))"

definition median_func ::
  "('a \<Rightarrow> 'a \<Rightarrow> bool) \<Rightarrow> 'a list \<Rightarrow> nat \<Rightarrow> nat \<Rightarrow> nat \<Rightarrow> nat \<Rightarrow> nat \<times> nat" where
  "median_func lt data a b c swaps =
     (let (a, b, swaps) = order2_func lt data a b swaps;
          (b, c, swaps) = order2_func lt data b c swaps;
          (a, b, swaps) = order2_func lt data a b swaps
      in (b, swaps))"

definition medianAdjacent_func ::
  "('a \<Rightarrow> 'a \<Rightarrow> bool) \<Rightarrow> 'a list \<Rightarrow> nat \<Rightarrow> nat \<Rightarrow> nat \<times> nat" where
  "medianAdjacent_func lt data a swaps = median_func lt data (a - 1) a (a + 1) swaps"

definition choosePivot_func ::
  "('a \<Rightarrow> 'a \<Rightarrow> bool) \<Rightarrow> 'a list \<Rightarrow> nat \<Rightarrow> nat \<Rightarrow> nat \<times> sortedHint" where
  "choosePivot_func lt data a b =
     (let l = b - a;
          i = a + l div 4 * 1; j = a + l div 4 * 2; k = a + l div 4 * 3;
          (j, swaps) =
            (if l \<ge> 8
             then (let (i, j, k, swaps) =
                         (if l \<ge> 50
                          then (let (i, swaps) = medianAdjacent_func lt data i 0;
                                    (j, swaps) = medianAdjacent_func lt data j swaps;
                                    (k, swaps) = medianAdjacent_func lt data k swaps
                                in (i, j, k, swaps))
                          else (i, j, k, 0))
                   in median_func lt data i j k swaps)
             else (j, 0))
      in if swaps = 0 then (j, increasingHint)
         else if swaps = 4 * 3 then (j, decreasingHint)
         else (j, unknownHint))"

function reverseLoop :: "'a list \<Rightarrow> nat \<Rightarrow> nat \<Rightarrow> 'a list" where
  "reverseLoop data i j = (if i < j then reverseLoop (Swap data i j) (i + 1) (j - 1) else data)"
  by pat_completeness auto
termination
  by (relation "measure (\<lambda>(data, i, j). j - i)") auto

declare reverseLoop.simps [simp del]

definition reverseRange_func :: "'a list \<Rightarrow> nat \<Rightarrow> nat \<Rightarrow> 'a list" where
  "reverseRange_func data a b = reverseLoop data a (b - 1)"

subsection \<open>Breaking patterns\<close>

fun bitsLen :: "nat \<Rightarrow> nat" where
  "bitsLen n = (if n = 0 then 0 else Suc (bitsLen (n div 2)))"

declare bitsLen.simps [simp del]

definition nextPowerOfTwo :: "nat \<Rightarrow> nat" where
  "nextPowerOfTwo n = 2 ^ bitsLen n"

definition breakPatterns_func :: "(nat \<Rightarrow> nat \<Rightarrow> nat) \<Rightarrow> 'a list \<Rightarrow> nat \<Rightarrow> nat \<Rightarrow> 'a list" where
  "breakPatterns_func random data a b =
     (let len = b - a
      in if len \<ge> 8
         then (let modulus = nextPowerOfTwo len;
                   idx = a + (len div 4) * 2 - 1
               in fold (\<lambda>i data.
                          let other = random len i mod modulus;
                              other = (if other \<ge> len then other - len else other)
                          in Swap data (idx - 1 + i) (a + other))
                    [0, 1, 2] data)
         else data)"

subsection \<open>Partial insertion sort\<close>

text \<open>The scan \<open>for i < b && !data.Less(i, i-1) { i++ }\<close>.\<close>

function sortedScan :: "('a \<Rightarrow> 'a \<Rightarrow> bool) \<Rightarrow> 'a list \<Rightarrow> nat \<Rightarrow> nat \<Rightarrow> nat" where
  "sortedScan lt data b i =
     (if i < b \<and> \<not> Less lt data i (i - 1) then sortedScan lt data b (i + 1) else i)"
  by pat_completeness auto
termination
  by (relation "measure (\<lambda>(lt, data, b, i). b - i)") auto

declare sortedScan.simps [simp del]

text \<open>\<open>for j := i - 1; j >= 1; j--\<close>: the smaller element moves to the left.\<close>

fun shiftLeft :: "('a \<Rightarrow> 'a \<Rightarrow> bool) \<Rightarrow> 'a list \<Rightarrow> nat \<Rightarrow> 'a list" where
  "shiftLeft lt data j =
     (if j \<ge> 1
      then (if \<not> Less lt data j (j - 1) then data
            else shiftLeft lt (Swap data j (j - 1)) (j - 1))
      else data)"

declare shiftLeft.simps [simp del]

text \<open>\<open>for j := i + 1; j < b; j++\<close>: the greater element moves to the right.\<close>

function shiftRight :: "('a \<Rightarrow> 'a \<Rightarrow> bool) \<Rightarrow> 'a list \<Rightarrow> nat \<Rightarrow> nat \<Rightarrow> 'a list" where
  "shiftRight lt data b j =
     (if j < b
      then (if \<not> Less lt data j (j - 1) then data
            else shiftRight lt (Swap data j (j - 1)) b (j + 1))
      else data)"
  by pat_completeness auto
termination
  by (relation "measure (\<lambda>(lt, data, b, j). b - j)") auto

declare shiftRight.simps [simp del]

text \<open>
  The loop \<open>for j := 0; j < maxSteps; j++\<close> of \<open>partialInsertionSort_func\<close>, with
  \<open>maxSteps = 5\<close> and \<open>shortestShifting = 50\<close>; \<open>i\<close> is kept from round to round.
\<close>

function partialInsertionLoop ::
  "('a \<Rightarrow> 'a \<Rightarrow> bool) \<Rightarrow> 'a list \<Rightarrow> nat \<Rightarrow> nat \<Rightarrow> nat \<Rightarrow> nat \<Rightarrow> 'a list \<times> bool" where
  "partialInsertionLoop lt data a b i j =
     (if j < 5
      then (let i = sortedScan lt data b i
            in if i = b then (data, True)
               else if b - a < 50 then (data, False)
               else (let data = Swap data i (i - 1);
                         data = (if i - a \<ge> 2 then shiftLeft lt data (i - 1) else data);
                         data = (if b - i \<ge> 2 then shiftRight lt data b (i + 1) else data)
                     in partialInsertionLoop lt data a b i (j + 1)))
      else (data, False))"
  by pat_completeness auto
termination
  by (relation "measure (\<lambda>(lt, data, a, b, i, j). 5 - j)") auto

declare partialInsertionLoop.simps [simp del]

definition partialInsertionSort_func ::
  "('a \<Rightarrow> 'a \<Rightarrow> bool) \<Rightarrow> 'a list \<Rightarrow> nat \<Rightarrow> nat \<Rightarrow> 'a list \<times> bool" where
  "partialInsertionSort_func lt data a b = partialInsertionLoop lt data a b (a + 1) 0"

subsection \<open>Partitioning\<close>

text \<open>
  The two scans of \<open>partition_func\<close>: \<open>for i <= j && data.Less(i, a) { i++ }\<close> and
  \<open>for i <= j && !data.Less(j, a) { j-- }\<close>.
\<close>

function belowPivot :: "('a \<Rightarrow> 'a \<Rightarrow> bool) \<Rightarrow> 'a list \<Rightarrow> nat \<Rightarrow> nat \<Rightarrow> int \<Rightarrow> nat" where
  "belowPivot lt data a i j =
     (if int i \<le> j \<and> Less lt data i a then belowPivot lt data a (i + 1) j else i)"
  by pat_completeness auto
termination
  by (relation "measure (\<lambda>(lt, data, a, i, j). nat (j + 1 - int i))") auto

declare belowPivot.simps [simp del]

function notBelowPivot :: "('a \<Rightarrow> 'a \<Rightarrow> bool) \<Rightarrow> 'a list \<Rightarrow> nat \<Rightarrow> nat \<Rightarrow> int \<Rightarrow> int" where
  "notBelowPivot lt data a i j =
     (if int i \<le> j \<and> \<not> Less lt data (nat j) a then notBelowPivot lt data a i (j - 1) else j)"
  by pat_completeness auto
termination
  by (relation "measure (\<lambda>(lt, data, a, i, j). nat (j + 1 - int i))") auto

declare notBelowPivot.simps [simp del]

text \<open>The loop \<open>for { ... }\<close> of \<open>partition_func\<close>; it returns the slice and the final \<open>j\<close>.\<close>

function partitionLoop ::
  "('a \<Rightarrow> 'a \<Rightarrow> bool) \<Rightarrow> 'a list \<Rightarrow> nat \<Rightarrow> nat \<Rightarrow> int \<Rightarrow> 'a list \<times> int" where
  "partitionLoop lt data a i j =
     (let i = belowPivot lt data a i j;
          j = notBelowPivot lt data a i j
      in if int i > j then (data, j)
         else partitionLoop lt (Swap data i (nat j)) a (i + 1) (j - 1))"
  by pat_completeness auto

lemma belowPivot_ge: "i \<le> belowPivot lt data a i j"
  by (induction lt data a i j rule: belowPivot.induct) (subst belowPivot.simps, auto)

lemma notBelowPivot_le: "notBelowPivot lt data a i j \<le> j"
  by (induction lt data a i j rule: notBelowPivot.induct) (subst notBelowPivot.simps, auto)

termination partitionLoop
proof (relation "measure (\<lambda>(lt, data, a, i, j). nat (j + 1 - int i))", goal_cases)
  case 1
  then show ?case by simp
next
  case (2 lt data a i j i' j')
  have "int i \<le> int i'" using 2(1) belowPivot_ge [of i lt data a j] by simp
  moreover have "j' \<le> j" using 2(2) notBelowPivot_le [of lt data a i' j] by simp
  ultimately show ?case using 2(3) by simp
qed

declare partitionLoop.simps [simp del]

definition partition_func ::
  "('a \<Rightarrow> 'a \<Rightarrow> bool) \<Rightarrow> 'a list \<Rightarrow> nat \<Rightarrow> nat \<Rightarrow> nat \<Rightarrow> 'a list \<times> nat \<times> bool" where
  "partition_func lt data a b pivot =
     (let data = Swap data a pivot;
          i = a + 1; j = int b - 1;
          i = belowPivot lt data a i j;
          j = notBelowPivot lt data a i j
      in if int i > j then (Swap data (nat j) a, nat j, True)
         else (let data = Swap data i (nat j);
                   (data, j) = partitionLoop lt data a (i + 1) (j - 1)
               in (Swap data (nat j) a, nat j, False)))"

text \<open>
  The scans of \<open>partitionEqual_func\<close>: \<open>for i <= j && !data.Less(a, i) { i++ }\<close> and
  \<open>for i <= j && data.Less(a, j) { j-- }\<close>.
\<close>

function notAbovePivot :: "('a \<Rightarrow> 'a \<Rightarrow> bool) \<Rightarrow> 'a list \<Rightarrow> nat \<Rightarrow> nat \<Rightarrow> int \<Rightarrow> nat" where
  "notAbovePivot lt data a i j =
     (if int i \<le> j \<and> \<not> Less lt data a i then notAbovePivot lt data a (i + 1) j else i)"
  by pat_completeness auto
termination
  by (relation "measure (\<lambda>(lt, data, a, i, j). nat (j + 1 - int i))") auto

declare notAbovePivot.simps [simp del]

function abovePivot :: "('a \<Rightarrow> 'a \<Rightarrow> bool) \<Rightarrow> 'a list \<Rightarrow> nat \<Rightarrow> nat \<Rightarrow> int \<Rightarrow> int" where
  "abovePivot lt data a i j =
     (if int i \<le> j \<and> Less lt data a (nat j) then abovePivot lt data a i (j - 1) else j)"
  by pat_completeness auto
termination
  by (relation "measure (\<lambda>(lt, data, a, i, j). nat (j + 1 - int i))") auto

declare abovePivot.simps [simp del]

function partitionEqualLoop ::
  "('a \<Rightarrow> 'a \<Rightarrow> bool) \<Rightarrow> 'a list \<Rightarrow> nat \<Rightarrow> nat \<Rightarrow> int \<Rightarrow> 'a list \<times> nat" where
  "partitionEqualLoop lt data a i j =
     (let i = notAbovePivot lt data a i j;
          j = abovePivot lt data a i j
      in if int i > j then (data, i)
         else partitionEqualLoop lt (Swap data i (nat j)) a (i + 1) (j - 1))"
  by pat_completeness auto

lemma notAbovePivot_ge: "i \<le> notAbovePivot lt data a i j"
  by (induction lt data a i j rule: notAbovePivot.induct) (subst notAbovePivot.simps, auto)

lemma abovePivot_le: "abovePivot lt data a i j \<le> j"
  by (induction lt data a i j rule: abovePivot.induct) (subst abovePivot.simps, auto)

termination partitionEqualLoop
proof (relation "measure (\<lambda>(lt, data, a, i, j). nat (j + 1 - int i))", goal_cases)
  case 1
  then show ?case by simp
next
  case (2 lt data a i j i' j')
  have "int i \<le> int i'" using 2(1) notAbovePivot_ge [of i lt data a j] by simp
  moreover have "j' \<le> j" using 2(2) abovePivot_le [of lt data a i' j] by simp
  ultimately show ?case using 2(3) by simp
qed

declare partitionEqualLoop.simps [simp del]

definition partitionEqual_func ::
  "('a \<Rightarrow> 'a \<Rightarrow> bool) \<Rightarrow> 'a list \<Rightarrow> nat \<Rightarrow> nat \<Rightarrow> nat \<Rightarrow> 'a list \<times> nat" where
  "partitionEqual_func lt data a b pivot =
     (let data = Swap data a pivot
      in partitionEqualLoop lt data a (a + 1) (int b - 1))"

text \<open>
  Bounds on the indices the partition functions return; the recursion of
  \<open>pdqsort_func\<close> terminates by them.
\<close>

lemma notBelowPivot_ge: "min j (int i - 1) \<le> notBelowPivot lt data a i j"
  by (induction lt data a i j rule: notBelowPivot.induct) (subst notBelowPivot.simps, auto)

lemma belowPivot_le: "int i \<le> j + 1 \<Longrightarrow> int (belowPivot lt data a i j) \<le> j + 1"
  by (induction lt data a i j rule: belowPivot.induct) (subst belowPivot.simps, auto)

lemma partitionLoop_bounds:
  "a < i \<Longrightarrow> int a \<le> j \<Longrightarrow> partitionLoop lt data a i j = (data', j') \<Longrightarrow> int a \<le> j' \<and> j' \<le> j"
proof (induction lt data a i j arbitrary: data' j' rule: partitionLoop.induct)
  case (1 lt data a i j)
  let ?i = "belowPivot lt data a i j"
  let ?j = "notBelowPivot lt data a ?i j"
  have i: "a < ?i" using belowPivot_ge [of i lt data a j] "1.prems"(1) by simp
  have j1: "?j \<le> j" by (rule notBelowPivot_le)
  have j2: "int a \<le> ?j" using notBelowPivot_ge [of j ?i lt data a] i "1.prems"(2) by simp
  show ?case
  proof (cases "int ?i > ?j")
    case True
    then have "j' = ?j" using "1.prems"(3) by (subst (asm) partitionLoop.simps) (auto simp: Let_def)
    then show ?thesis using j1 j2 by simp
  next
    case False
    then have rec: "partitionLoop lt (Swap data ?i (nat ?j)) a (?i + 1) (?j - 1) = (data', j')"
      using "1.prems"(3) by (subst (asm) partitionLoop.simps) (auto simp: Let_def)
    have "int a \<le> j' \<and> j' \<le> ?j - 1"
      using "1.IH" [OF refl refl False _ _ rec] i False by simp
    then show ?thesis using j1 by simp
  qed
qed

lemma partition_func_mid:
  assumes "a < b" and "partition_func lt data a b pivot = (data', mid, already)"
  shows "a \<le> mid \<and> mid < b"
proof -
  let ?d = "Swap data a pivot"
  let ?i = "belowPivot lt ?d a (a + 1) (int b - 1)"
  let ?j = "notBelowPivot lt ?d a ?i (int b - 1)"
  have i: "a < ?i" using belowPivot_ge [of "a + 1" lt ?d a "int b - 1"] by simp
  have j1: "?j \<le> int b - 1" by (rule notBelowPivot_le)
  have j2: "int a \<le> ?j" using notBelowPivot_ge [of "int b - 1" ?i lt ?d a] i assms(1) by simp
  show ?thesis
  proof (cases "int ?i > ?j")
    case True
    then have "mid = nat ?j" using assms(2) by (simp add: partition_func_def Let_def)
    then show ?thesis using j1 j2 assms(1) by linarith
  next
    case False
    obtain d2 j' where loop: "partitionLoop lt (Swap ?d ?i (nat ?j)) a (?i + 1) (?j - 1) = (d2, j')"
      by (cases "partitionLoop lt (Swap ?d ?i (nat ?j)) a (?i + 1) (?j - 1)")
    have "int a \<le> j' \<and> j' \<le> ?j - 1"
      using partitionLoop_bounds [OF _ _ loop] i False by simp
    moreover have "mid = nat j'" using assms(2) False loop by (simp add: partition_func_def Let_def)
    ultimately show ?thesis using j1 assms(1) by linarith
  qed
qed

lemma partitionEqualLoop_ge: "partitionEqualLoop lt data a i j = (data', mid) \<Longrightarrow> i \<le> mid"
proof (induction lt data a i j arbitrary: data' mid rule: partitionEqualLoop.induct)
  case (1 lt data a i j)
  let ?i = "notAbovePivot lt data a i j"
  let ?j = "abovePivot lt data a ?i j"
  have i: "i \<le> ?i" by (rule notAbovePivot_ge)
  show ?case
  proof (cases "int ?i > ?j")
    case True
    then have "mid = ?i" using "1.prems" by (subst (asm) partitionEqualLoop.simps) (auto simp: Let_def)
    then show ?thesis using i by simp
  next
    case False
    then have rec: "partitionEqualLoop lt (Swap data ?i (nat ?j)) a (?i + 1) (?j - 1) = (data', mid)"
      using "1.prems" by (subst (asm) partitionEqualLoop.simps) (auto simp: Let_def)
    have "?i + 1 \<le> mid" using "1.IH" [OF refl refl False rec] .
    then show ?thesis using i by simp
  qed
qed

lemma partitionEqual_func_mid: "partitionEqual_func lt data a b pivot = (data', mid) \<Longrightarrow> a < mid"
  using partitionEqualLoop_ge [of lt "Swap data a pivot" a "a + 1" "int b - 1" data' mid]
  by (simp add: partitionEqual_func_def Let_def)

subsection \<open>\<open>pdqsort_func\<close> and \<open>Slice\<close>\<close>

text \<open>
  The loop \<open>for { ... }\<close> of \<open>pdqsort_func\<close> is the recursion on its state: the
  slice, \<open>a\<close>, \<open>b\<close>, \<open>limit\<close>, \<open>wasBalanced\<close> and \<open>wasPartitioned\<close>. A
  recursive call of the code starts with both flags true. \<open>maxInsertion\<close> is 12.
\<close>

function pdqsort_func ::
  "(nat \<Rightarrow> nat \<Rightarrow> nat) \<Rightarrow> ('a \<Rightarrow> 'a \<Rightarrow> bool) \<Rightarrow> 'a list \<Rightarrow> nat \<Rightarrow> nat \<Rightarrow> nat \<Rightarrow> bool \<Rightarrow> bool
   \<Rightarrow> 'a list" where
  "pdqsort_func random lt data a b limit wasBalanced wasPartitioned =
     (if b - a \<le> 12 then insertionSort_func lt data a b
      else if limit = 0 then heapSort_func lt data a b
      else
        (let data = (if \<not> wasBalanced then breakPatterns_func random data a b else data);
             limit = (if \<not> wasBalanced then limit - 1 else limit);
             pivotHint = choosePivot_func lt data a b;
             reversed = (snd pivotHint = decreasingHint);
             data = (if reversed then reverseRange_func data a b else data);
             pivot = (if reversed then (b - 1) - (fst pivotHint - a) else fst pivotHint);
             hint = (if reversed then increasingHint else snd pivotHint);
             sorted = (if wasBalanced \<and> wasPartitioned \<and> hint = increasingHint
                       then partialInsertionSort_func lt data a b else (data, False));
             data = fst sorted
         in if snd sorted then data
            else if a > 0 \<and> \<not> Less lt data (a - 1) pivot
            then (let eq = partitionEqual_func lt data a b pivot
                  in pdqsort_func random lt (fst eq) (snd eq) b limit wasBalanced wasPartitioned)
            else
              (let part = partition_func lt data a b pivot;
                   data = fst part; mid = fst (snd part);
                   wasPartitioned = snd (snd part);
                   leftLen = mid - a; rightLen = b - mid;
                   balanceThreshold = (b - a) div 8
               in if leftLen < rightLen
                  then pdqsort_func random lt
                         (pdqsort_func random lt data a mid limit True True)
                         (mid + 1) b limit (leftLen \<ge> balanceThreshold) wasPartitioned
                  else pdqsort_func random lt
                         (pdqsort_func random lt data (mid + 1) b limit True True)
                         a mid limit (rightLen \<ge> balanceThreshold) wasPartitioned)))"
  by pat_completeness auto
termination
proof (relation "measure (\<lambda>(random, lt, data, a, b, limit, wb, wp). b - a)", goal_cases)
  case 1
  then show ?case by simp
next
  case (2 random lt data a b limit wb wp d l ph r d2 p h s d3 eq)
  from 2(1) have ab: "a < b" by simp
  have "a < snd eq"
    using partitionEqual_func_mid [of lt d3 a b p "fst eq" "snd eq"] 2(14) by simp
  with ab show ?case by auto
next
  case (3 random lt data a b limit wb wp d l ph r d2 p h s d3 part d4 mid wp' ll rl bt)
  from 3(1) have ab: "a < b" by simp
  have "a \<le> mid \<and> mid < b"
    using partition_func_mid [OF ab, of lt d3 p "fst part" "fst (snd part)" "snd (snd part)"]
      3(14,16) by simp
  with ab show ?case by auto
next
  case (4 random lt data a b limit wb wp d l ph r d2 p h s d3 part d4 mid wp' ll rl bt)
  from 4(1) have ab: "a < b" by simp
  have "a \<le> mid \<and> mid < b"
    using partition_func_mid [OF ab, of lt d3 p "fst part" "fst (snd part)" "snd (snd part)"]
      4(14,16) by simp
  with ab show ?case by auto
next
  case (5 random lt data a b limit wb wp d l ph r d2 p h s d3 part d4 mid wp' ll rl bt)
  from 5(1) have ab: "a < b" by simp
  have "a \<le> mid \<and> mid < b"
    using partition_func_mid [OF ab, of lt d3 p "fst part" "fst (snd part)" "snd (snd part)"]
      5(14,16) by simp
  with ab show ?case by auto
next
  case (6 random lt data a b limit wb wp d l ph r d2 p h s d3 part d4 mid wp' ll rl bt)
  from 6(1) have ab: "a < b" by simp
  have "a \<le> mid \<and> mid < b"
    using partition_func_mid [OF ab, of lt d3 p "fst part" "fst (snd part)" "snd (snd part)"]
      6(14,16) by simp
  with ab show ?case by auto
qed

declare pdqsort_func.simps [simp del]

definition Slice :: "(nat \<Rightarrow> nat \<Rightarrow> nat) \<Rightarrow> ('a \<Rightarrow> 'a \<Rightarrow> bool) \<Rightarrow> 'a list \<Rightarrow> 'a list" where
  "Slice random lt x = pdqsort_func random lt x 0 (length x) (bitsLen (length x)) True True"

section \<open>Notions used to state the claims\<close>

text \<open>The value \<open>Get\<close> returns for one pair of words, on a builder with root \<open>doc\<close>.\<close>

definition pairResult :: "jval \<Rightarrow> string \<Rightarrow> string \<Rightarrow> jval" where
  "pairResult doc w1 w2 =
     fst (Get (OrWhere ''last_name'' OpContains (JString w2)
                (OrWhere ''first_name'' OpContains (JString w1) (FromString doc))))"

text \<open>
  An element of the array passes the conditions \<open>qs\<close>: it is an object and some group
  holds in full.
\<close>

definition passes :: "query list list \<Rightarrow> jval \<Rightarrow> bool" where
  "passes qs v =
     (case v of
        JObject m \<Rightarrow> list_ex (\<lambda>qList. list_all (queryHolds m) qList) qs
      | _ \<Rightarrow> False)"

text \<open>
  A raw element matches a pair of words: an object whose first name (a string) contains
  the first word or whose last name (a string) contains the second, letter case ignored.
\<close>

definition rawMatch :: "string \<Rightarrow> string \<Rightarrow> jval \<Rightarrow> bool" where
  "rawMatch w1 w2 v =
     (case v of
        JObject m \<Rightarrow>
          (case map_of m ''first_name'' of
             Some (JString s) \<Rightarrow> Contains (ToLower s) (ToLower w1)
           | _ \<Rightarrow> False)
          \<or> (case map_of m ''last_name'' of
                Some (JString s) \<Rightarrow> Contains (ToLower s) (ToLower w2)
              | _ \<Rightarrow> False)
      | _ \<Rightarrow> False)"

text \<open>The same on a record: the match of the specification, a logical OR of the two tests.\<close>

definition nameMatch :: "string \<Rightarrow> string \<Rightarrow> EmployeeInfo \<Rightarrow> bool" where
  "nameMatch w1 w2 e =
     (Contains (ToLower (FirstName e)) (ToLower w1)
      \<or> Contains (ToLower (LastName e)) (ToLower w2))"

text \<open>
  The single-person lookup in the words of the specification: the first adjacent pair of
  words, both of 3 bytes or more, that some record matches decides, and the narrative is
  that of the first record matching it; with no such pair the result is the fixed
  message.
\<close>

fun lookupSpec :: "string list \<Rightarrow> EmployeeInfo list \<Rightarrow> string" where
  "lookupSpec (w1 # w2 # rest) emps =
     (if length w1 < 3 \<or> length w2 < 3 then lookupSpec (w2 # rest) emps
      else case filter (nameMatch w1 w2) emps of
             [] \<Rightarrow> lookupSpec (w2 # rest) emps
           | emp # others \<Rightarrow> narrative emp)"
| "lookupSpec ws emps = notFound"

text \<open>A record written out, for the concrete inputs below.\<close>

abbreviation (input) employee ::
  "string \<Rightarrow> string \<Rightarrow> string \<Rightarrow> string \<Rightarrow> bool \<Rightarrow> string \<Rightarrow> EmployeeInfo" where
  "employee fn ln em ti de dd \<equiv>
     \<lparr>FirstName = fn, LastName = ln, Email = em, Title = ti, Deactivated = de,
      DeactivatedDate = dd\<rparr>"

text \<open>
  The status filter in the words of the specification: the record is kept under the
  filter chosen from the lower-cased query.
\<close>

definition statusSelects :: "string \<Rightarrow> EmployeeInfo \<Rightarrow> bool" where
  "statusSelects query e =
     (if Contains query ''deactivat'' \<or> Contains query ''terminat'' then Deactivated e = True
      else if Contains query ''active'' then Deactivated e = False
      else True)"

text \<open>
  The same on the raw elements of the array: under a filter an element is kept when it is
  an object whose field \<open>deactivated\<close> is the boolean asked for.
\<close>

definition rawFlag :: "bool \<Rightarrow> jval \<Rightarrow> bool" where
  "rawFlag b v = (case v of JObject m \<Rightarrow> map_of m ''deactivated'' = Some (JBool b) | _ \<Rightarrow> False)"

definition rawSelects :: "string \<Rightarrow> jval \<Rightarrow> bool" where
  "rawSelects query v =
     (if Contains query ''deactivat'' \<or> Contains query ''terminat'' then rawFlag True v
      else if Contains query ''active'' then rawFlag False v
      else True)"

text \<open>
  The numbers of the limit patterns of a query, in the order of the scan: at each word,
  first the pattern \<open>last\<close>/\<open>top\<close>/\<open>latest\<close> followed by a positive integer, then
  the pattern of a positive integer followed by \<open>employees\<close>/\<open>employee\<close>.
\<close>

definition positiveInt :: "string \<Rightarrow> int list" where
  "positiveInt w = (case Atoi w of None \<Rightarrow> [] | Some num \<Rightarrow> if num > 0 then [num] else [])"

fun patternNumbers :: "string list \<Rightarrow> int list" where
  "patternNumbers [] = []"
| "patternNumbers (word # rest) =
     (if (word = ''last'' \<or> word = ''top'' \<or> word = ''latest'') \<and> rest \<noteq> []
      then positiveInt (hd rest) else [])
     @ (if rest \<noteq> [] \<and> (hd rest = ''employees'' \<or> hd rest = ''employee'')
        then positiveInt word else [])
     @ patternNumbers rest"

text \<open>A comparison as \<open>sort.Slice\<close> requires it: a strict weak ordering.\<close>

definition strictWeakOrder :: "('a \<Rightarrow> 'a \<Rightarrow> bool) \<Rightarrow> bool" where
  "strictWeakOrder lt =
     ((\<forall>x. \<not> lt x x) \<and> (\<forall>x y z. lt x y \<and> lt y z \<longrightarrow> lt x z)
      \<and> (\<forall>x y z. \<not> lt x y \<and> \<not> lt y z \<longrightarrow> \<not> lt x z))"

text \<open>Insertion of \<open>x\<close> into \<open>ys\<close> from the right end, as the inner loop moves it.\<close>

function insertRight :: "('a \<Rightarrow> 'a \<Rightarrow> bool) \<Rightarrow> 'a \<Rightarrow> 'a list \<Rightarrow> 'a list" where
  "insertRight lt x ys =
     (if ys = [] then [x]
      else if lt x (last ys) then insertRight lt x (butlast ys) @ [last ys]
      else ys @ [x])"
  by pat_completeness auto
termination
  by (relation "measure (\<lambda>(lt, x, ys). length ys)") auto

declare insertRight.simps [simp del]

text \<open>Insertion sort as a fold: every element is inserted from the right in turn.\<close>

definition insertAll :: "('a \<Rightarrow> 'a \<Rightarrow> bool) \<Rightarrow> 'a list \<Rightarrow> 'a list \<Rightarrow> 'a list" where
  "insertAll lt ys zs = foldl (\<lambda>acc z. insertRight lt z acc) ys zs"

text \<open>
  The class of a record under the comparison: 0 with the parsed date, 1 for a date that
  is not empty and does not parse, 2 for the empty date.
\<close>

definition dateRank :: "EmployeeInfo \<Rightarrow> nat" where
  "dateRank e =
     (if DeactivatedDate e = '''' then 2
      else if Parse (DeactivatedDate e) = None then 1 else 0)"

text \<open>
  The contract of \<open>sort.Slice\<close>: for a comparison that is a strict weak ordering the
  result is a rearrangement of the slice in which no element is less than an earlier one.
\<close>

definition sortContract :: "(('a \<Rightarrow> 'a \<Rightarrow> bool) \<Rightarrow> 'a list \<Rightarrow> 'a list) \<Rightarrow> bool" where
  "sortContract slice =
     (\<forall>lt xs. strictWeakOrder lt \<longrightarrow>
        mset (slice lt xs) = mset xs \<and> sorted_wrt (\<lambda>x y. \<not> lt y x) (slice lt xs))"

text \<open>Two records whose dates compare as equal: neither is less than the other.\<close>

definition dateEquiv :: "EmployeeInfo \<Rightarrow> EmployeeInfo \<Rightarrow> bool" where
  "dateEquiv a b = (\<not> dateLess a b \<and> \<not> dateLess b a)"

text \<open>Twelve records without a date followed by one deactivated on 2024-01-01.\<close>

abbreviation (input) thirteen :: "EmployeeInfo list" where
  "thirteen \<equiv>
     [employee ''Ann'' ''A'' '''' '''' False '''', employee ''Bob'' ''B'' '''' '''' False '''',
      employee ''Cyd'' ''C'' '''' '''' False '''', employee ''Dan'' ''D'' '''' '''' False '''',
      employee ''Eve'' ''E'' '''' '''' False '''', employee ''Fay'' ''F'' '''' '''' False '''',
      employee ''Gus'' ''G'' '''' '''' False '''', employee ''Hal'' ''H'' '''' '''' False '''',
      employee ''Ida'' ''I'' '''' '''' False '''', employee ''Jon'' ''J'' '''' '''' False '''',
      employee ''Kim'' ''K'' '''' '''' False '''', employee ''Lea'' ''L'' '''' '''' False '''',
      employee ''Max'' ''M'' '''' '''' True ''2024-01-01'']"

section \<open>Auxiliary facts\<close>

lemma foldl_append_rows: "foldl (\<lambda>result x. result @ f x) acc xs = acc @ concat (map f xs)"
  by (induction xs arbitrary: acc) simp_all

subsection \<open>The query builder and the decoder\<close>

lemma Reset_root_cong: "rootJSONContent jq = rootJSONContent jq' \<Longrightarrow> Reset jq = Reset (jq' :: JSONQ)"
  by (cases jq, cases jq') (simp add: Reset_def)

lemma Reset_FromString [simp]: "Reset (FromString doc) = FromString doc"
  by (simp add: Reset_def FromString_def)

lemma prepare_FromString [simp]: "prepare (FromString doc) = FromString doc"
  by (simp add: prepare_def FromString_def)

lemma root_Reset [simp]: "rootJSONContent (Reset jq) = rootJSONContent jq"
  by (simp add: Reset_def)

lemma root_OrWhere [simp]: "rootJSONContent (OrWhere k c v jq) = rootJSONContent jq"
  by (simp add: OrWhere_def)

lemma root_Where [simp]: "rootJSONContent (Where k c v jq) = rootJSONContent jq"
  by (simp add: Where_def Let_def)

lemma root_prepare [simp]: "rootJSONContent (prepare jq) = rootJSONContent jq"
  by (simp add: prepare_def processQuery_def Let_def split: jval.splits)

lemma root_Get [simp]: "rootJSONContent (snd (Get jq)) = rootJSONContent jq"
  by (simp add: Get_def Let_def)

lemma root_statusFilter [simp]: "rootJSONContent (statusFilter q jq) = rootJSONContent jq"
  by (simp add: statusFilter_def)

lemma Reset_eq_FromString: "Reset jq = FromString (rootJSONContent jq)"
  by (cases jq) (simp add: Reset_def FromString_def)

lemma findLoop_root:
  "rootJSONContent jq = rootJSONContent jq' \<Longrightarrow> findLoop jq ws = findLoop jq' ws"
proof (induction jq ws arbitrary: jq' rule: findLoop.induct)
  case (1 jq w1 w2 rest)
  have R: "Reset jq = Reset jq'"
    using "1.prems" by (rule Reset_root_cong)
  show ?case
  proof (cases "length w1 < 3 \<or> length w2 < 3")
    case True
    then show ?thesis using "1.IH"(1) [OF True "1.prems"] by simp
  next
    case False
    then show ?thesis by (simp add: R split_beta)
  qed
qed simp_all

lemma findLoop_step:
  "findLoop jq (w1 # w2 # rest) =
     (if length w1 < 3 \<or> length w2 < 3 then findLoop jq (w2 # rest)
      else case unmarshalEmployees (pairResult (rootJSONContent jq) w1 w2) of
             Inl err \<Rightarrow> findLoop jq (w2 # rest)
           | Inr [] \<Rightarrow> findLoop jq (w2 # rest)
           | Inr (emp # others) \<Rightarrow> Inr (narrative emp))"
proof -
  let ?jq' = "snd (Get (OrWhere ''last_name'' OpContains (JString w2)
                (OrWhere ''first_name'' OpContains (JString w1) (Reset jq))))"
  have "findLoop ?jq' (w2 # rest) = findLoop jq (w2 # rest)"
    by (rule findLoop_root) simp
  then show ?thesis
    by (simp add: pairResult_def Reset_eq_FromString [symmetric] split_beta
        split: sum.splits list.splits)
qed

lemma concat_map_if_filter: "concat (map (\<lambda>a. if P a then [a] else []) xs) = filter P xs"
  by (induction xs) simp_all

lemma findInArray_filter: "findInArray j aa = filter (passes (queries j)) aa"
proof -
  have "(\<lambda>a. case a of JObject m \<Rightarrow> findInMap j m | _ \<Rightarrow> []) = (\<lambda>a. if passes (queries j) a then [a] else [])"
    by (rule ext) (simp add: passes_def findInMap_def split: jval.splits)
  then show ?thesis by (simp add: findInArray_def concat_map_if_filter)
qed

lemma Get_array:
  "jsonContent j = JArray aa \<Longrightarrow> queries j \<noteq> [] \<Longrightarrow> fst (Get j) = JArray (filter (passes (queries j)) aa)"
  by (simp add: Get_def prepare_def processQuery_def findInArray_filter Let_def)

lemma Get_no_queries: "queries j = [] \<Longrightarrow> fst (Get j) = jsonContent j"
  by (simp add: Get_def prepare_def Let_def)

lemma Get_not_array: "\<forall>aa. jsonContent j \<noteq> JArray aa \<Longrightarrow> fst (Get j) = jsonContent j"
  by (cases "jsonContent j") (simp_all add: Get_def prepare_def processQuery_def Let_def)

lemma passes_pair:
  "passes [[\<lparr>key = ''first_name'', operator = OpContains, val = JString w1\<rparr>],
           [\<lparr>key = ''last_name'', operator = OpContains, val = JString w2\<rparr>]] v = rawMatch w1 w2 v"
  by (simp add: passes_def rawMatch_def queryHolds_def getNestedValue_def queryMap_def
      strContains_def split: jval.splits option.splits)

lemma pairResult_array: "pairResult (JArray xs) w1 w2 = JArray (filter (rawMatch w1 w2) xs)"
proof -
  let ?j = "OrWhere ''last_name'' OpContains (JString w2)
                (OrWhere ''first_name'' OpContains (JString w1) (FromString (JArray xs)))"
  have q: "queries ?j = [[\<lparr>key = ''first_name'', operator = OpContains, val = JString w1\<rparr>],
           [\<lparr>key = ''last_name'', operator = OpContains, val = JString w2\<rparr>]]"
    by (simp add: OrWhere_def FromString_def)
  have c: "jsonContent ?j = JArray xs"
    by (simp add: OrWhere_def FromString_def)
  show ?thesis
    unfolding pairResult_def using Get_array [OF c] q by (simp add: passes_pair [abs_def])
qed

lemma pairResult_not_array: "\<forall>aa. doc \<noteq> JArray aa \<Longrightarrow> pairResult doc w1 w2 = doc"
  unfolding pairResult_def
  by (subst Get_not_array) (simp_all add: OrWhere_def FromString_def)

text \<open>Records written by \<open>json.Marshal\<close> decode to themselves.\<close>

lemma unmarshal_marshalEmployee [simp]: "unmarshalEmployee (marshalEmployee e) = Some e"
  by (simp add: unmarshalEmployee_def marshalEmployee_def stringField_def boolField_def)

lemma unmarshalAll_marshal [simp]: "unmarshalAll (map marshalEmployee es) = Some es"
  by (induction es) simp_all

lemma unmarshalEmployees_marshal [simp]: "unmarshalEmployees (JArray (map marshalEmployee es)) = Inr es"
  by (simp add: unmarshalEmployees_def)

lemma rawMatch_marshal [simp]: "rawMatch w1 w2 (marshalEmployee e) = nameMatch w1 w2 e"
  by (simp add: rawMatch_def marshalEmployee_def nameMatch_def)

lemma filter_map_marshal:
  "(\<And>e. P (marshalEmployee e) = Q e) \<Longrightarrow> filter P (map marshalEmployee es) = map marshalEmployee (filter Q es)"
  by (induction es) simp_all

lemma pairResult_marshal:
  "unmarshalEmployees (pairResult (marshalEmployees emps) w1 w2) = Inr (filter (nameMatch w1 w2) emps)"
  by (simp add: marshalEmployees_def pairResult_array filter_map_marshal [where Q = "nameMatch w1 w2"])

lemma findLoop_marshal:
  "rootJSONContent jq = marshalEmployees emps \<Longrightarrow> findLoop jq ws = Inr (lookupSpec ws emps)"
proof (induction ws emps rule: lookupSpec.induct)
  case (1 w1 w2 rest emps)
  note root = "1.prems"
  show ?case
  proof (cases "length w1 < 3 \<or> length w2 < 3")
    case True
    then show ?thesis using "1.IH"(1) [OF True root]
      by (simp only: findLoop_step lookupSpec.simps) simp
  next
    case False
    show ?thesis
    proof (cases "filter (nameMatch w1 w2) emps")
      case Nil
      show ?thesis
        using False "1.IH"(2) [OF False Nil root]
        by (simp only: findLoop_step root pairResult_marshal lookupSpec.simps Nil) simp
    next
      case (Cons emp others)
      show ?thesis
        using False
        by (simp only: findLoop_step root pairResult_marshal lookupSpec.simps Cons) simp
    qed
  qed
qed simp_all



lemma ProcessQuery_lookup:
  "isSpecificEmployeeSearch (ToLower query) \<Longrightarrow>
   ProcessQuery slice jsonData query = findSpecificEmployee (FromString jsonData) (ToLower query)"
  by (simp add: ProcessQuery_def Let_def findSpecificEmployee_def
      findLoop_root [of "statusFilter (ToLower query) (FromString jsonData)" "FromString jsonData"])

lemma passes_flag:
  "passes [[\<lparr>key = ''deactivated'', operator = OpEq, val = JBool b\<rparr>]] v = rawFlag b v"
  by (auto simp: passes_def rawFlag_def queryHolds_def getNestedValue_def queryMap_def eq_def
      split: jval.splits option.splits)

lemma Get_Where_flag:
  "fst (Get (Where ''deactivated'' OpEq (JBool b) (FromString (JArray xs))))
   = JArray (filter (rawFlag b) xs)"
proof -
  let ?j = "Where ''deactivated'' OpEq (JBool b) (FromString (JArray xs))"
  have q: "queries ?j = [[\<lparr>key = ''deactivated'', operator = OpEq, val = JBool b\<rparr>]]"
    by (simp add: Where_def FromString_def)
  have c: "jsonContent ?j = JArray xs"
    by (simp add: Where_def FromString_def)
  show ?thesis
    using Get_array [OF c] q by (simp add: passes_flag [abs_def])
qed

lemma Get_FromString: "fst (Get (FromString doc)) = doc"
  by (simp add: Get_no_queries FromString_def)

lemma Get_statusFilter_array:
  "fst (Get (statusFilter query (FromString (JArray xs)))) = JArray (filter (rawSelects query) xs)"
proof -
  consider (d) "Contains query ''deactivat'' \<or> Contains query ''terminat''"
    | (a) "\<not> (Contains query ''deactivat'' \<or> Contains query ''terminat'')" "Contains query ''active''"
    | (n) "\<not> (Contains query ''deactivat'' \<or> Contains query ''terminat'')" "\<not> Contains query ''active''"
    by blast
  then show ?thesis
  proof cases
    case d
    then have "rawSelects query = rawFlag True" by (auto simp: rawSelects_def)
    with d show ?thesis by (simp only: statusFilter_def Get_Where_flag if_True)
  next
    case a
    then have "rawSelects query = rawFlag False" by (auto simp: rawSelects_def)
    with a show ?thesis by (simp add: statusFilter_def Get_Where_flag)
  next
    case n
    then have "rawSelects query = (\<lambda>v. True)" by (auto simp: rawSelects_def)
    with n show ?thesis by (simp add: statusFilter_def Get_FromString)
  qed
qed

lemma rawSelects_marshal [simp]: "rawSelects query (marshalEmployee e) = statusSelects query e"
  by (simp add: rawSelects_def statusSelects_def rawFlag_def marshalEmployee_def)

lemma statusFilter_marshal:
  "unmarshalEmployees (fst (Get (statusFilter query (FromString (marshalEmployees emps)))))
   = Inr (filter (statusSelects query) emps)"
  by (simp add: marshalEmployees_def Get_statusFilter_array
      filter_map_marshal [where Q = "statusSelects query"])

lemma ProcessQuery_list:
  "\<not> isSpecificEmployeeSearch (ToLower query) \<Longrightarrow>
   ProcessQuery slice jsonData query =
     (case unmarshalEmployees (fst (Get (statusFilter (ToLower query) (FromString jsonData)))) of
        Inl err \<Rightarrow> Inl err
      | Inr employees \<Rightarrow>
          formatOutput (ToLower query)
            (limitResults (ToLower query) (sortByDate slice (ToLower query) employees)))"
  by (simp add: ProcessQuery_def Let_def split_beta)

lemma limitOf_if:
  "(if c then limitOf w n else None)
   = map_option nat (find (\<lambda>num. num < int n) (if c then positiveInt w else []))"
  by (simp add: limitOf_def positiveInt_def split: option.splits)

lemma find_append: "find P (xs @ ys) = (case find P xs of None \<Rightarrow> find P ys | Some x \<Rightarrow> Some x)"
  by (induction xs) simp_all

lemma limitScan_patterns:
  "limitScan words employees =
     (case find (\<lambda>num. num < int (length employees)) (patternNumbers words) of
        None \<Rightarrow> employees
      | Some num \<Rightarrow> take (nat num) employees)"
proof (induction words)
  case Nil
  then show ?case by simp
next
  case (Cons word rest)
  let ?P = "\<lambda>num. num < int (length employees)"
  let ?A = "if (word = ''last'' \<or> word = ''top'' \<or> word = ''latest'') \<and> rest \<noteq> []
      then positiveInt (hd rest) else []"
  let ?B = "if rest \<noteq> [] \<and> (hd rest = ''employees'' \<or> hd rest = ''employee'')
        then positiveInt word else []"
  have scan: "limitScan (word # rest) employees =
     (case map_option nat (find ?P ?A) of
        Some num \<Rightarrow> take num employees
      | None \<Rightarrow> (case map_option nat (find ?P ?B) of
                   Some num \<Rightarrow> take num employees
                 | None \<Rightarrow> limitScan rest employees))"
    by (simp only: limitScan.simps limitOf_if)
  have pat: "find ?P (patternNumbers (word # rest)) =
     (case find ?P ?A of
        Some x \<Rightarrow> Some x
      | None \<Rightarrow> (case find ?P ?B of Some x \<Rightarrow> Some x | None \<Rightarrow> find ?P (patternNumbers rest)))"
    by (simp only: patternNumbers.simps find_append)
  show ?case
    unfolding scan pat Cons.IH
    by (cases "find ?P ?A"; cases "find ?P ?B") simp_all
qed

lemma insertRight_Nil [simp]: "insertRight lt x [] = [x]"
  by (simp add: insertRight.simps)

lemma insertRight_snoc [simp]:
  "insertRight lt x (ys @ [y]) = (if lt x y then insertRight lt x ys @ [y] else ys @ [y, x])"
  by (subst insertRight.simps) simp

lemma Swap_adjacent:
  "Swap (pre @ y # x # rest) (Suc (length pre)) (length pre) = pre @ x # y # rest"
  by (simp add: Swap_def list_update_append nth_append)

lemma Less_adjacent:
  "Less lt (pre @ y # x # rest) (Suc (length pre)) (length pre) = lt x y"
  by (simp add: Less_def nth_append)

lemma insertionInner_spec:
  "length pre = a \<Longrightarrow>
   insertionInner lt (pre @ ys @ x # rest) a (a + length ys) = pre @ insertRight lt x ys @ rest"
proof (induction ys arbitrary: rest rule: rev_induct)
  case Nil
  then show ?case by (subst insertionInner.simps) simp
next
  case (snoc y ys)
  have len: "a + length (ys @ [y]) = Suc (length (pre @ ys))"
    using snoc.prems by simp
  have split: "pre @ (ys @ [y]) @ x # rest = (pre @ ys) @ y # x # rest"
    by simp
  show ?case
  proof (cases "lt x y")
    case True
    have "insertionInner lt (pre @ (ys @ [y]) @ x # rest) a (a + length (ys @ [y]))
          = insertionInner lt ((pre @ ys) @ x # y # rest) a (length (pre @ ys))"
      unfolding len split
      by (subst insertionInner.simps)
         (use True snoc.prems in \<open>simp only: Less_adjacent Swap_adjacent diff_Suc_1, simp\<close>)
    also have "\<dots> = pre @ insertRight lt x ys @ y # rest"
      using snoc.IH [OF snoc.prems, of "y # rest"] snoc.prems by simp
    finally show ?thesis using True by simp
  next
    case False
    have "insertionInner lt (pre @ (ys @ [y]) @ x # rest) a (a + length (ys @ [y]))
          = (pre @ ys) @ y # x # rest"
      unfolding len split
      by (subst insertionInner.simps) (use False in \<open>simp only: Less_adjacent diff_Suc_1, simp\<close>)
    then show ?thesis using False by simp
  qed
qed

lemma insertionOuter_spec:
  "length pre = a \<Longrightarrow> i = a + length ys \<Longrightarrow> b = i + length zs \<Longrightarrow>
   insertionOuter lt (pre @ ys @ zs @ post) a b i = pre @ insertAll lt ys zs @ post"
proof (induction zs arbitrary: ys i)
  case Nil
  then show ?case by (subst insertionOuter.simps) (simp add: insertAll_def)
next
  case (Cons z zs)
  have step: "insertionInner lt (pre @ ys @ z # zs @ post) a (a + length ys)
              = pre @ insertRight lt z ys @ zs @ post"
    using insertionInner_spec [OF Cons.prems(1), of lt ys z "zs @ post"] by simp
  have len: "length (insertRight lt z ys) = Suc (length ys)" for ys
    by (induction ys rule: rev_induct) simp_all
  have "insertionOuter lt (pre @ ys @ (z # zs) @ post) a b i
        = insertionOuter lt (pre @ insertRight lt z ys @ zs @ post) a b (i + 1)"
    using Cons.prems by (subst insertionOuter.simps) (simp add: step)
  also have "\<dots> = pre @ insertAll lt (insertRight lt z ys) zs @ post"
    using Cons.IH [OF Cons.prems(1), of "i + 1" "insertRight lt z ys"] Cons.prems by (simp add: len)
  finally show ?case by (simp add: insertAll_def)
qed

lemma insertionSort_whole:
  "insertionSort_func lt data 0 (length data) = insertAll lt [] data"
proof (cases data)
  case Nil
  then show ?thesis
    by (simp add: insertionSort_func_def insertAll_def insertionOuter.simps)
next
  case (Cons x xs)
  have "insertionOuter lt ([] @ [x] @ xs @ []) 0 (length data) (0 + 1) = [] @ insertAll lt [x] xs @ []"
    by (rule insertionOuter_spec) (simp_all add: Cons)
  then show ?thesis
    by (simp add: insertionSort_func_def Cons insertAll_def)
qed

lemma Slice_short:
  "length x \<le> 12 \<Longrightarrow> Slice random lt x = insertAll lt [] x"
  by (simp add: Slice_def pdqsort_func.simps insertionSort_whole)

lemma strictWeakOrder_asym: "strictWeakOrder lt \<Longrightarrow> lt x y \<Longrightarrow> \<not> lt y x"
  unfolding strictWeakOrder_def by blast

lemma set_insertRight [simp]: "set (insertRight lt x ys) = insert x (set ys)"
  by (induction ys rule: rev_induct) auto

lemma mset_insertRight [simp]: "mset (insertRight lt x ys) = add_mset x (mset ys)"
  by (induction ys rule: rev_induct) auto

lemma mset_insertAll: "mset (insertAll lt ys zs) = mset ys + mset zs"
  unfolding insertAll_def by (induction zs arbitrary: ys) simp_all

lemma sorted_insertRight:
  assumes swo: "strictWeakOrder lt"
  shows "sorted_wrt (\<lambda>a b. \<not> lt b a) ys \<Longrightarrow> sorted_wrt (\<lambda>a b. \<not> lt b a) (insertRight lt x ys)"
proof (induction ys rule: rev_induct)
  case Nil
  then show ?case by simp
next
  case (snoc y ys)
  from snoc.prems have sorted: "sorted_wrt (\<lambda>a b. \<not> lt b a) ys"
    and below: "\<forall>e \<in> set ys. \<not> lt y e"
    by (simp_all add: sorted_wrt_append)
  show ?case
  proof (cases "lt x y")
    case True
    then have "\<not> lt y x" using swo by (rule strictWeakOrder_asym [rotated])
    then show ?thesis
      using True snoc.IH [OF sorted] below by (simp add: sorted_wrt_append)
  next
    case False
    have "\<forall>e \<in> set ys. \<not> lt x e"
      using False below swo unfolding strictWeakOrder_def by blast
    then show ?thesis
      using False snoc.prems by (simp add: sorted_wrt_append)
  qed
qed

lemma sorted_insertAll:
  "strictWeakOrder lt \<Longrightarrow> sorted_wrt (\<lambda>a b. \<not> lt b a) ys
   \<Longrightarrow> sorted_wrt (\<lambda>a b. \<not> lt b a) (insertAll lt ys zs)"
  unfolding insertAll_def by (induction zs arbitrary: ys) (simp_all add: sorted_insertRight)

lemma stable_insertRight:
  assumes "\<And>a b. P a \<Longrightarrow> P b \<Longrightarrow> \<not> lt a b"
  shows "filter P (insertRight lt x ys) = filter P ys @ filter P [x]"
proof (induction ys rule: rev_induct)
  case Nil
  then show ?case by simp
next
  case (snoc y ys)
  show ?case
  proof (cases "lt x y")
    case True
    then have "\<not> (P x \<and> P y)" using assms by blast
    then show ?thesis using True snoc.IH by auto
  next
    case False
    then show ?thesis by simp
  qed
qed

lemma stable_insertAll:
  assumes "\<And>a b. P a \<Longrightarrow> P b \<Longrightarrow> \<not> lt a b"
  shows "filter P (insertAll lt ys zs) = filter P ys @ filter P zs"
  unfolding insertAll_def
  by (induction zs arbitrary: ys) (simp_all add: stable_insertRight [OF assms])

lemma After_irrefl: "\<not> After t t"
  by (cases t) auto

lemma After_trans: "After t u \<Longrightarrow> After u v \<Longrightarrow> After t v"
  by (cases t; cases u; cases v) auto

lemma After_negtrans: "\<not> After t u \<Longrightarrow> \<not> After u v \<Longrightarrow> \<not> After t v"
  by (cases t; cases u; cases v) auto

lemma After_total: "\<not> After t u \<Longrightarrow> \<not> After u t \<Longrightarrow> t = u"
  by (cases t; cases u) auto

lemma dateLess_rank:
  "dateLess a b =
     (dateRank a < dateRank b
      \<or> (dateRank a = 0 \<and> dateRank b = 0
          \<and> After (the (Parse (DeactivatedDate a))) (the (Parse (DeactivatedDate b)))))"
  by (auto simp: dateLess_def dateRank_def Let_def)

lemma dateLess_irrefl: "\<not> dateLess x x"
  by (simp add: dateLess_rank After_irrefl)

lemma dateLess_trans: "dateLess x y \<Longrightarrow> dateLess y z \<Longrightarrow> dateLess x z"
  unfolding dateLess_rank by (auto dest: After_trans)

lemma dateLess_negtrans:
  assumes "\<not> dateLess x y" and "\<not> dateLess y z"
  shows "\<not> dateLess x z"
proof
  assume "dateLess x z"
  then consider (rank) "dateRank x < dateRank z"
    | (date) "dateRank x = 0" "dateRank z = 0"
        "After (the (Parse (DeactivatedDate x))) (the (Parse (DeactivatedDate z)))"
    by (auto simp: dateLess_rank)
  then show False
  proof cases
    case rank
    from assms(1) have "dateRank y \<le> dateRank x" unfolding dateLess_rank by auto
    with rank have "dateRank y < dateRank z" by simp
    with assms(2) show False unfolding dateLess_rank by simp
  next
    case date
    from assms(1) date(1) have y: "dateRank y = 0" unfolding dateLess_rank by auto
    from assms(1) date(1) y
    have "\<not> After (the (Parse (DeactivatedDate x))) (the (Parse (DeactivatedDate y)))"
      unfolding dateLess_rank by simp
    moreover from assms(2) date(2) y
    have "\<not> After (the (Parse (DeactivatedDate y))) (the (Parse (DeactivatedDate z)))"
      unfolding dateLess_rank by simp
    ultimately show False using date(3) After_negtrans by blast
  qed
qed

lemma strictWeakOrder_dateLess: "strictWeakOrder dateLess"
  unfolding strictWeakOrder_def
  using dateLess_irrefl dateLess_trans dateLess_negtrans by blast

lemma insertionSort_contract: "sortContract (\<lambda>lt x. insertionSort_func lt x 0 (length x))"
  unfolding sortContract_def insertionSort_whole
  by (simp add: mset_insertAll sorted_insertAll)

lemma Parse_empty [simp]: "Parse '''' = None"
  by (simp add: Parse_def)

lemma not_dateLess_order:
  assumes "\<not> dateLess y x"
  shows "(DeactivatedDate x = '''' \<longrightarrow> DeactivatedDate y = '''')
     \<and> (Parse (DeactivatedDate y) \<noteq> None \<longrightarrow> Parse (DeactivatedDate x) \<noteq> None)
     \<and> (\<forall>tx ty. Parse (DeactivatedDate x) = Some tx \<and> Parse (DeactivatedDate y) = Some ty
           \<longrightarrow> \<not> After ty tx)"
  using assms by (auto simp: dateLess_def Let_def split: if_splits)

lemma dateEquiv_classes:
  "dateEquiv a b =
     ((DeactivatedDate a = '''' \<and> DeactivatedDate b = '''')
      \<or> (DeactivatedDate a \<noteq> '''' \<and> DeactivatedDate b \<noteq> ''''
          \<and> Parse (DeactivatedDate a) = None \<and> Parse (DeactivatedDate b) = None)
      \<or> (\<exists>t. Parse (DeactivatedDate a) = Some t \<and> Parse (DeactivatedDate b) = Some t))"
proof (cases "Parse (DeactivatedDate a)"; cases "Parse (DeactivatedDate b)")
  fix t u assume "Parse (DeactivatedDate a) = Some t" "Parse (DeactivatedDate b) = Some u"
  moreover from this have "DeactivatedDate a \<noteq> ''''" "DeactivatedDate b \<noteq> ''''" by auto
  ultimately show ?thesis
    using After_total [of t u] After_irrefl [of t]
    by (auto simp: dateEquiv_def dateLess_def)
qed (auto simp: dateEquiv_def dateLess_def)

lemma stable_short_Slice:
  "length x \<le> 12 \<Longrightarrow> filter (dateEquiv e) (Slice random dateLess x) = filter (dateEquiv e) x"
proof -
  assume "length x \<le> 12"
  then have "Slice random dateLess x = insertAll dateLess [] x"
    by (rule Slice_short)
  moreover have "filter (dateEquiv e) (insertAll dateLess [] x) = filter (dateEquiv e) [] @ filter (dateEquiv e) x"
  proof (rule stable_insertAll)
    fix a b assume "dateEquiv e a" "dateEquiv e b"
    then have "\<not> dateLess a e" "\<not> dateLess e b" by (simp_all add: dateEquiv_def)
    then show "\<not> dateLess a b" by (rule dateLess_negtrans)
  qed
  ultimately show ?thesis by simp
qed

section \<open>The claims\<close>

text \<open>
  C6. Detection of a single-person lookup, on the lower-cased query: the query is a
  lookup when it contains one of the twelve fixed phrases, and also when it contains
  \<open>find\<close> outside the four counting phrases; a query with one of the counting phrases
  \<open>find last\<close>, \<open>find top\<close>, \<open>find the last\<close>, \<open>find the top\<close> and none of the
  fixed phrases is not a lookup. In particular \<open>find last 5\<close> is not a lookup.
\<close>

theorem C6_lookup_detection:
  "((\<exists>p \<in> set [''when was'', ''when did'', ''what date'', ''who is'', ''information about'',
      ''details for'', ''details about'', ''find employee'', ''search for'', ''look for'',
      ''locate'', ''get info on'']. Contains q p) \<longrightarrow> isSpecificEmployeeSearch q)
   \<and> (Contains q ''find'' \<and> \<not> Contains q ''find last'' \<and> \<not> Contains q ''find top''
        \<and> \<not> Contains q ''find the last'' \<and> \<not> Contains q ''find the top''
       \<longrightarrow> isSpecificEmployeeSearch q)
   \<and> ((Contains q ''find last'' \<or> Contains q ''find top''
         \<or> Contains q ''find the last'' \<or> Contains q ''find the top'')
        \<and> (\<forall>p \<in> set [''when was'', ''when did'', ''what date'', ''who is'', ''information about'',
      ''details for'', ''details about'', ''find employee'', ''search for'', ''look for'',
      ''locate'', ''get info on'']. \<not> Contains q p)
       \<longrightarrow> \<not> isSpecificEmployeeSearch q)
   \<and> \<not> isSpecificEmployeeSearch (ToLower ''find last 5'')"
proof -
  have a: "(\<exists>p \<in> set [''when was'', ''when did'', ''what date'', ''who is'', ''information about'',
      ''details for'', ''details about'', ''find employee'', ''search for'', ''look for'',
      ''locate'', ''get info on'']. Contains q p) \<longrightarrow> isSpecificEmployeeSearch q"
    by (simp add: isSpecificEmployeeSearch_def specificPatterns_def)
  have b: "Contains q ''find'' \<and> \<not> Contains q ''find last'' \<and> \<not> Contains q ''find top''
        \<and> \<not> Contains q ''find the last'' \<and> \<not> Contains q ''find the top''
       \<longrightarrow> isSpecificEmployeeSearch q"
    by (simp add: isSpecificEmployeeSearch_def)
  have c: "(Contains q ''find last'' \<or> Contains q ''find top''
         \<or> Contains q ''find the last'' \<or> Contains q ''find the top'')
        \<and> (\<forall>p \<in> set [''when was'', ''when did'', ''what date'', ''who is'', ''information about'',
      ''details for'', ''details about'', ''find employee'', ''search for'', ''look for'',
      ''locate'', ''get info on'']. \<not> Contains q p)
       \<longrightarrow> \<not> isSpecificEmployeeSearch q"
    by (simp add: isSpecificEmployeeSearch_def specificPatterns_def)
  have d: "\<not> isSpecificEmployeeSearch (ToLower ''find last 5'')"
    by code_simp
  from a b c d show ?thesis by blast
qed

text \<open>The three cases of C6 at concrete queries.\<close>

theorem C6_lookup_detection_witness:
  "Contains ''find last 5'' ''find last''
   \<and> \<not> Contains ''find last 5'' ''find employee''
   \<and> \<not> isSpecificEmployeeSearch ''find last 5''
   \<and> Contains ''who is ann lee'' ''who is''
   \<and> isSpecificEmployeeSearch ''who is ann lee''
   \<and> Contains ''find ann lee'' ''find''
   \<and> isSpecificEmployeeSearch ''find ann lee''"
  using C6_lookup_detection [of "''find last 5''"] C6_lookup_detection [of "''who is ann lee''"]
    C6_lookup_detection [of "''find ann lee''"]
  by simp

text \<open>
  C7. For the empty record list the list formatter and the table formatter return the
  same fixed message with a nil error.
\<close>

theorem C7_empty_result_message:
  "FormatResults [] = Inr ''No employees found matching the criteria.''
   \<and> FormatAsMarkdownTable [] = Inr ''No employees found matching the criteria.''
   \<and> FormatResults [] = FormatAsMarkdownTable []"
  by (simp add: FormatResults_def FormatAsMarkdownTable_def noEmployeesFound_def)

text \<open>
  C8. For a non-empty record list the table output is the fixed header row, the
  separator row and then one row per record, in order; the status cell reads
  \<open>Deactivated\<close> for a deactivated record and \<open>Active\<close> otherwise, and the date cell
  of an active record is empty.
\<close>

theorem C8_table_rows:
  "employees \<noteq> [] \<Longrightarrow>
   FormatAsMarkdownTable employees =
     Inr (''| Name | Title | Email | Status | Deactivation Date |'' @ [CHR 0x0A]
          @ ''|------|-------|-------|--------|------------------|'' @ [CHR 0x0A]
          @ concat (map (\<lambda>emp. ''| '' @ FirstName emp @ '' '' @ LastName emp
                               @ '' | '' @ Title emp @ '' | '' @ Email emp
                               @ '' | '' @ (if Deactivated emp then ''Deactivated'' else ''Active'')
                               @ '' | '' @ (if Deactivated emp then DeactivatedDate emp else '''')
                               @ '' |'' @ [CHR 0x0A]) employees))"
  by (simp add: FormatAsMarkdownTable_def foldl_append_rows tableRow_def tableHeader_def
      tableSeparator_def Let_def)

text \<open>C8 at a list of one active and one deactivated record.\<close>

theorem C8_table_rows_witness:
  "[\<lparr>FirstName = ''Ann'', LastName = ''Lee'', Email = ''a@x.io'', Title = ''CTO'',
      Deactivated = False, DeactivatedDate = ''2020-01-01''\<rparr>,
    \<lparr>FirstName = ''Bob'', LastName = ''Ray'', Email = '''', Title = '''',
      Deactivated = True, DeactivatedDate = ''2021-05-06''\<rparr>] \<noteq> []
   \<and> FormatAsMarkdownTable
       [\<lparr>FirstName = ''Ann'', LastName = ''Lee'', Email = ''a@x.io'', Title = ''CTO'',
          Deactivated = False, DeactivatedDate = ''2020-01-01''\<rparr>,
        \<lparr>FirstName = ''Bob'', LastName = ''Ray'', Email = '''', Title = '''',
          Deactivated = True, DeactivatedDate = ''2021-05-06''\<rparr>]
     = Inr (''| Name | Title | Email | Status | Deactivation Date |'' @ [CHR 0x0A]
            @ ''|------|-------|-------|--------|------------------|'' @ [CHR 0x0A]
            @ ''| Ann Lee | CTO | a@x.io | Active |  |'' @ [CHR 0x0A]
            @ ''| Bob Ray |  |  | Deactivated | 2021-05-06 |'' @ [CHR 0x0A])"
  using C8_table_rows [of "[\<lparr>FirstName = ''Ann'', LastName = ''Lee'', Email = ''a@x.io'', Title = ''CTO'',
      Deactivated = False, DeactivatedDate = ''2020-01-01''\<rparr>,
    \<lparr>FirstName = ''Bob'', LastName = ''Ray'', Email = '''', Title = '''',
      Deactivated = True, DeactivatedDate = ''2021-05-06''\<rparr>]"]
  by simp

text \<open>
  C5. The single-person lookup over a collection of records (as the directory file holds
  them): the adjacent pairs of words are tried from left to right; a pair with a word
  shorter than 3 bytes is skipped; a record matches a pair when its first name contains
  the first word or its last name contains the second, letter case ignored; the first
  pair with a matching record is used, and the narrative is built from the first
  matching record of that pair. \<open>lookupSpec\<close> is this description, and the lookup of
  the code returns its result.
\<close>

theorem C5_single_person_lookup:
  "rootJSONContent jq = marshalEmployees emps \<Longrightarrow>
   findSpecificEmployee jq query = Inr (lookupSpec (Fields query) emps)"
  by (simp add: findSpecificEmployee_def findLoop_marshal)

text \<open>
  C5 at the query \<open>when was john doe deactivated\<close>: the pairs \<open>when was\<close> and
  \<open>was john\<close> match no record, \<open>john doe\<close> matches the second and the third record,
  and the narrative is the second record's.
\<close>

theorem C5_single_person_lookup_witness:
  "rootJSONContent (FromString (marshalEmployees
      [employee ''Jane'' ''Roe'' '''' ''CFO'' False '''',
       employee ''John'' ''Doe'' ''jd@x.io'' '''' True ''2022-03-15'',
       employee ''Ada'' ''Doering'' '''' '''' False '''']))
   = marshalEmployees
      [employee ''Jane'' ''Roe'' '''' ''CFO'' False '''',
       employee ''John'' ''Doe'' ''jd@x.io'' '''' True ''2022-03-15'',
       employee ''Ada'' ''Doering'' '''' '''' False '''']
   \<and> findSpecificEmployee (FromString (marshalEmployees
      [employee ''Jane'' ''Roe'' '''' ''CFO'' False '''',
       employee ''John'' ''Doe'' ''jd@x.io'' '''' True ''2022-03-15'',
       employee ''Ada'' ''Doering'' '''' '''' False '''']))
      ''when was john doe deactivated''
   = Inr (''Employee: John Doe'' @ [CHR 0x0A] @ ''Email: jd@x.io'' @ [CHR 0x0A]
          @ ''Status: Deactivated'' @ [CHR 0x0A]
          @ ''Deactivation Date: 2022-03-15'' @ [CHR 0x0A])"
proof -
  let ?emps = "[employee ''Jane'' ''Roe'' '''' ''CFO'' False '''',
       employee ''John'' ''Doe'' ''jd@x.io'' '''' True ''2022-03-15'',
       employee ''Ada'' ''Doering'' '''' '''' False '''']"
  have root: "rootJSONContent (FromString (marshalEmployees ?emps)) = marshalEmployees ?emps"
    by (simp add: FromString_def)
  have run: "lookupSpec (Fields ''when was john doe deactivated'') ?emps
    = ''Employee: John Doe'' @ [CHR 0x0A] @ ''Email: jd@x.io'' @ [CHR 0x0A]
          @ ''Status: Deactivated'' @ [CHR 0x0A]
          @ ''Deactivation Date: 2022-03-15'' @ [CHR 0x0A]"
    by code_simp
  show ?thesis
    using C5_single_person_lookup [OF root, of "''when was john doe deactivated''"] root run
    by simp
qed



text \<open>
  C10. When the query is a single-person lookup, the status filter chosen from the query
  text has no effect: the result is that of the lookup on the builder without any
  condition, so the whole collection is searched. For the query
  \<open>when was John Doe deactivated\<close>, which holds the status keyword \<open>deactivat\<close>, and
  a collection with the active record John Doe, the narrative reports this active
  record.
\<close>

theorem C10_lookup_discards_status_filter:
  "(isSpecificEmployeeSearch (ToLower query) \<longrightarrow>
      ProcessQuery slice jsonData query = findSpecificEmployee (FromString jsonData) (ToLower query))
   \<and> (isSpecificEmployeeSearch (ToLower query) \<longrightarrow>
      ProcessQuery slice (marshalEmployees emps) query = Inr (lookupSpec (Fields (ToLower query)) emps))
   \<and> Contains (ToLower ''when was John Doe deactivated'') ''deactivat''
   \<and> isSpecificEmployeeSearch (ToLower ''when was John Doe deactivated'')
   \<and> ProcessQuery slice (marshalEmployees [employee ''John'' ''Doe'' '''' '''' False ''''])
         ''when was John Doe deactivated''
       = Inr (''Employee: John Doe'' @ [CHR 0x0A] @ ''Status: Active'' @ [CHR 0x0A])"
proof -
  have a: "isSpecificEmployeeSearch (ToLower query) \<longrightarrow>
      ProcessQuery slice jsonData query = findSpecificEmployee (FromString jsonData) (ToLower query)"
    by (simp add: ProcessQuery_lookup)
  have b: "isSpecificEmployeeSearch (ToLower query) \<longrightarrow>
      ProcessQuery slice (marshalEmployees emps) query = Inr (lookupSpec (Fields (ToLower query)) emps)"
    by (simp add: ProcessQuery_lookup findSpecificEmployee_def findLoop_marshal FromString_def)
  have c: "Contains (ToLower ''when was John Doe deactivated'') ''deactivat''"
    by code_simp
  have d: "isSpecificEmployeeSearch (ToLower ''when was John Doe deactivated'')"
    by code_simp
  have e: "lookupSpec (Fields (ToLower ''when was John Doe deactivated''))
             [employee ''John'' ''Doe'' '''' '''' False '''']
           = ''Employee: John Doe'' @ [CHR 0x0A] @ ''Status: Active'' @ [CHR 0x0A]"
    by code_simp
  have f: "ProcessQuery slice (marshalEmployees [employee ''John'' ''Doe'' '''' '''' False ''''])
         ''when was John Doe deactivated''
       = Inr (''Employee: John Doe'' @ [CHR 0x0A] @ ''Status: Active'' @ [CHR 0x0A])"
    using d e
    by (simp only: ProcessQuery_lookup findSpecificEmployee_def
        findLoop_marshal [of "FromString (marshalEmployees es)" es for es, simplified FromString_def, simplified, folded FromString_def])
  from a b c d f show ?thesis by blast
qed

text \<open>C10 at a query with the keyword \<open>active\<close> and a deactivated record.\<close>

theorem C10_lookup_discards_status_filter_witness:
  "isSpecificEmployeeSearch (ToLower ''who is ann lee, active?'')
   \<and> ProcessQuery (\<lambda>less xs. xs)
        (marshalEmployees [employee ''Ann'' ''Lee'' '''' '''' True ''2020-02-02''])
        ''who is ann lee, active?''
     = Inr (''Employee: Ann Lee'' @ [CHR 0x0A] @ ''Status: Deactivated'' @ [CHR 0x0A]
            @ ''Deactivation Date: 2020-02-02'' @ [CHR 0x0A])"
proof -
  have d: "isSpecificEmployeeSearch (ToLower ''who is ann lee, active?'')"
    by code_simp
  have e: "lookupSpec (Fields (ToLower ''who is ann lee, active?''))
             [employee ''Ann'' ''Lee'' '''' '''' True ''2020-02-02'']
           = ''Employee: Ann Lee'' @ [CHR 0x0A] @ ''Status: Deactivated'' @ [CHR 0x0A]
            @ ''Deactivation Date: 2020-02-02'' @ [CHR 0x0A]"
    by code_simp
  from d C10_lookup_discards_status_filter [of "''who is ann lee, active?''"
        "\<lambda>less xs. xs" "marshalEmployees [employee ''Ann'' ''Lee'' '''' '''' True ''2020-02-02'']"
        "[employee ''Ann'' ''Lee'' '''' '''' True ''2020-02-02'']"]
  have "ProcessQuery (\<lambda>less xs. xs)
        (marshalEmployees [employee ''Ann'' ''Lee'' '''' '''' True ''2020-02-02''])
        ''who is ann lee, active?''
      = Inr (lookupSpec (Fields (ToLower ''who is ann lee, active?''))
             [employee ''Ann'' ''Lee'' '''' '''' True ''2020-02-02''])"
    by blast
  with d e show ?thesis by simp
qed

text \<open>
  C1. The status filter is chosen from the lower-cased query by precedence: with
  \<open>deactivat\<close> or \<open>terminat\<close> only the records with \<open>deactivated = true\<close> are kept;
  otherwise with \<open>active\<close> only those with \<open>deactivated = false\<close>; otherwise every
  record (\<open>statusSelects\<close>; on the raw elements of any array, \<open>rawSelects\<close>). The
  decoded result is the input filtered by that choice, hence a subsequence of the input
  in which every record has the flag asked for, and it is the list the rest of
  \<open>ProcessQuery\<close> works on when the query is not a single-person lookup.
\<close>

theorem C1_status_filter:
  "fst (Get (statusFilter (ToLower query) (Reset (prepare (FromString (JArray xs))))))
     = JArray (filter (rawSelects (ToLower query)) xs)
   \<and> unmarshalEmployees
       (fst (Get (statusFilter (ToLower query) (Reset (prepare (FromString (marshalEmployees emps)))))))
     = Inr (filter (statusSelects (ToLower query)) emps)
   \<and> subseq (filter (statusSelects (ToLower query)) emps) emps
   \<and> (\<forall>e \<in> set (filter (statusSelects (ToLower query)) emps). statusSelects (ToLower query) e)
   \<and> (\<not> isSpecificEmployeeSearch (ToLower query) \<longrightarrow>
        ProcessQuery slice (marshalEmployees emps) query
        = formatOutput (ToLower query)
            (limitResults (ToLower query)
              (sortByDate slice (ToLower query) (filter (statusSelects (ToLower query)) emps))))"
  by (simp add: Get_statusFilter_array statusFilter_marshal ProcessQuery_list)

text \<open>
  C1 at three records: \<open>Active staff\<close> keeps the two active ones, and
  \<open>inactive or terminated\<close>, which holds both \<open>active\<close> and \<open>terminat\<close>, keeps the
  deactivated one.
\<close>

theorem C1_status_filter_witness:
  "\<not> isSpecificEmployeeSearch (ToLower ''Active staff'')
   \<and> filter (statusSelects (ToLower ''Active staff''))
        [employee ''Ann'' ''Lee'' '''' '''' True ''2020-02-02'',
         employee ''Bob'' ''Ray'' '''' '''' False '''',
         employee ''Cy'' ''Orr'' '''' '''' False '''']
     = [employee ''Bob'' ''Ray'' '''' '''' False '''', employee ''Cy'' ''Orr'' '''' '''' False '''']
   \<and> filter (statusSelects (ToLower ''inactive or terminated''))
        [employee ''Ann'' ''Lee'' '''' '''' True ''2020-02-02'',
         employee ''Bob'' ''Ray'' '''' '''' False '''',
         employee ''Cy'' ''Orr'' '''' '''' False '''']
     = [employee ''Ann'' ''Lee'' '''' '''' True ''2020-02-02'']
   \<and> ProcessQuery (\<lambda>less xs. xs)
        (marshalEmployees
          [employee ''Ann'' ''Lee'' '''' '''' True ''2020-02-02'',
           employee ''Bob'' ''Ray'' '''' '''' False '''',
           employee ''Cy'' ''Orr'' '''' '''' False ''''])
        ''Active staff''
     = Inr (''Found 2 employees:'' @ [CHR 0x0A, CHR 0x0A] @ ''1. Bob Ray'' @ [CHR 0x0A]
            @ ''2. Cy Orr'' @ [CHR 0x0A])"
proof -
  let ?emps = "[employee ''Ann'' ''Lee'' '''' '''' True ''2020-02-02'',
         employee ''Bob'' ''Ray'' '''' '''' False '''',
         employee ''Cy'' ''Orr'' '''' '''' False '''']"
  have l: "\<not> isSpecificEmployeeSearch (ToLower ''Active staff'')"
    by code_simp
  have f1: "filter (statusSelects (ToLower ''Active staff'')) ?emps
     = [employee ''Bob'' ''Ray'' '''' '''' False '''', employee ''Cy'' ''Orr'' '''' '''' False '''']"
    by code_simp
  have f2: "filter (statusSelects (ToLower ''inactive or terminated'')) ?emps
     = [employee ''Ann'' ''Lee'' '''' '''' True ''2020-02-02'']"
    by code_simp
  have out: "formatOutput (ToLower ''Active staff'')
            (limitResults (ToLower ''Active staff'')
              (sortByDate (\<lambda>less xs. xs) (ToLower ''Active staff'')
                [employee ''Bob'' ''Ray'' '''' '''' False '''', employee ''Cy'' ''Orr'' '''' '''' False '''']))
     = Inr (''Found 2 employees:'' @ [CHR 0x0A, CHR 0x0A] @ ''1. Bob Ray'' @ [CHR 0x0A]
            @ ''2. Cy Orr'' @ [CHR 0x0A])"
    by code_simp
  from l C1_status_filter [of "''Active staff''" "[]" ?emps "\<lambda>less xs. xs"]
  have "ProcessQuery (\<lambda>less xs. xs) (marshalEmployees ?emps) ''Active staff''
        = formatOutput (ToLower ''Active staff'')
            (limitResults (ToLower ''Active staff'')
              (sortByDate (\<lambda>less xs. xs) (ToLower ''Active staff'')
                 (filter (statusSelects (ToLower ''Active staff'')) ?emps)))"
    by blast
  with l f1 f2 out show ?thesis by simp
qed

text \<open>
  C4 as stated fails. The claim has the scan stop at the first pattern with a positive
  integer and apply that number, a number not below the length being a no-op. In the
  query \<open>top 10 of 3 employees\<close> the first such pattern is \<open>top 10\<close>; on five records
  the claim leaves the result unchanged, but the code passes over 10 and truncates to
  the 3 of the later pattern.
\<close>

theorem C4_first_pattern_counterexample:
  "patternNumbers (Fields ''top 10 of 3 employees'') = [10, 3]
   \<and> length [employee ''A'' ''One'' '''' '''' False '''', employee ''B'' ''Two'' '''' '''' False '''',
              employee ''C'' ''Three'' '''' '''' False '''', employee ''D'' ''Four'' '''' '''' False '''',
              employee ''E'' ''Five'' '''' '''' False ''''] = 5
   \<and> limitResults ''top 10 of 3 employees''
        [employee ''A'' ''One'' '''' '''' False '''', employee ''B'' ''Two'' '''' '''' False '''',
         employee ''C'' ''Three'' '''' '''' False '''', employee ''D'' ''Four'' '''' '''' False '''',
         employee ''E'' ''Five'' '''' '''' False '''']
     = [employee ''A'' ''One'' '''' '''' False '''', employee ''B'' ''Two'' '''' '''' False '''',
        employee ''C'' ''Three'' '''' '''' False '''']
   \<and> limitResults ''top 10 of 3 employees''
        [employee ''A'' ''One'' '''' '''' False '''', employee ''B'' ''Two'' '''' '''' False '''',
         employee ''C'' ''Three'' '''' '''' False '''', employee ''D'' ''Four'' '''' '''' False '''',
         employee ''E'' ''Five'' '''' '''' False '''']
     \<noteq> [employee ''A'' ''One'' '''' '''' False '''', employee ''B'' ''Two'' '''' '''' False '''',
         employee ''C'' ''Three'' '''' '''' False '''', employee ''D'' ''Four'' '''' '''' False '''',
         employee ''E'' ''Five'' '''' '''' False '''']"
  by code_simp

text \<open>
  C4, amended. The scan stops at the first pattern whose positive integer is strictly
  smaller than the current length, and the result is truncated to that many leading
  records; a pattern whose number is not smaller is passed over and the scan goes on.
  The result is always a prefix of the input, and it is the input itself when no pattern
  has a smaller number.
\<close>

theorem C4_limit_amended:
  "limitResults query employees =
     (case find (\<lambda>num. num < int (length employees)) (patternNumbers (Fields query)) of
        None \<Rightarrow> employees
      | Some num \<Rightarrow> take (nat num) employees)
   \<and> (\<exists>n. limitResults query employees = take n employees)
   \<and> ((\<forall>num \<in> set (patternNumbers (Fields query)). int (length employees) \<le> num)
        \<longrightarrow> limitResults query employees = employees)"
proof -
  have a: "limitResults query employees =
     (case find (\<lambda>num. num < int (length employees)) (patternNumbers (Fields query)) of
        None \<Rightarrow> employees
      | Some num \<Rightarrow> take (nat num) employees)"
    by (simp add: limitResults_def limitScan_patterns)
  have b: "\<exists>n. limitResults query employees = take n employees"
  proof (cases "find (\<lambda>num. num < int (length employees)) (patternNumbers (Fields query))")
    case None
    then have "limitResults query employees = take (length employees) employees"
      using a by simp
    then show ?thesis by blast
  next
    case (Some num)
    then show ?thesis using a by auto
  qed
  have c: "(\<forall>num \<in> set (patternNumbers (Fields query)). int (length employees) \<le> num)
        \<longrightarrow> limitResults query employees = employees"
  proof
    assume "\<forall>num \<in> set (patternNumbers (Fields query)). int (length employees) \<le> num"
    then have "find (\<lambda>num. num < int (length employees)) (patternNumbers (Fields query)) = None"
      by (auto simp: find_None_iff)
    then show "limitResults query employees = employees" using a by simp
  qed
  from a b c show ?thesis by blast
qed

text \<open>
  The amended C4 on three records: \<open>latest 7 or 2 employees\<close> passes over 7 and
  truncates to 2; \<open>top 3\<close> leaves the three records as they are.
\<close>

theorem C4_limit_amended_witness:
  "patternNumbers (Fields ''latest 7 or 2 employees'') = [7, 2]
   \<and> limitResults ''latest 7 or 2 employees''
        [employee ''A'' ''One'' '''' '''' False '''', employee ''B'' ''Two'' '''' '''' False '''',
         employee ''C'' ''Three'' '''' '''' False '''']
     = [employee ''A'' ''One'' '''' '''' False '''', employee ''B'' ''Two'' '''' '''' False '''']
   \<and> patternNumbers (Fields ''top 3'') = [3]
   \<and> limitResults ''top 3''
        [employee ''A'' ''One'' '''' '''' False '''', employee ''B'' ''Two'' '''' '''' False '''',
         employee ''C'' ''Three'' '''' '''' False '''']
     = [employee ''A'' ''One'' '''' '''' False '''', employee ''B'' ''Two'' '''' '''' False '''',
         employee ''C'' ''Three'' '''' '''' False '''']"
proof -
  let ?emps = "[employee ''A'' ''One'' '''' '''' False '''', employee ''B'' ''Two'' '''' '''' False '''',
         employee ''C'' ''Three'' '''' '''' False '''']"
  have p1: "patternNumbers (Fields ''latest 7 or 2 employees'') = [7, 2]"
    by code_simp
  have p2: "patternNumbers (Fields ''top 3'') = [3]"
    by code_simp
  show ?thesis
    using C4_limit_amended [of "''latest 7 or 2 employees''" ?emps]
      C4_limit_amended [of "''top 3''" ?emps] p1 p2
    by simp
qed

text \<open>
  C2. When the query asks for the date sort (it contains \<open>last\<close>, \<open>recent\<close>,
  \<open>sort by date\<close> or \<open>sort by deactivation\<close>), and \<open>sort.Slice\<close> keeps its contract,
  the sorted list is a rearrangement of the records in which, for every two positions
  \<open>i < j\<close>: an empty date at \<open>i\<close> means an empty date at \<open>j\<close> (empty dates come after
  all others); a date that parses at \<open>j\<close> means a date that parses at \<open>i\<close> (a date
  that does not parse comes after every one that does); and two dates that parse are in
  descending order. Two empty dates compare as equal, and so do two non-empty dates that
  do not parse. The comparison is a strict weak ordering, as the contract asks.
\<close>

theorem C2_date_sort_order:
  assumes "sortContract slice" and "wantsDateSort query"
    and "result = sortByDate slice query employees"
  shows "mset result = mset employees
   \<and> (\<forall>i j. i < j \<and> j < length result \<longrightarrow>
         (DeactivatedDate (result ! i) = '''' \<longrightarrow> DeactivatedDate (result ! j) = '''')
       \<and> (Parse (DeactivatedDate (result ! j)) \<noteq> None
            \<longrightarrow> Parse (DeactivatedDate (result ! i)) \<noteq> None)
       \<and> (\<forall>ti tj. Parse (DeactivatedDate (result ! i)) = Some ti
                  \<and> Parse (DeactivatedDate (result ! j)) = Some tj \<longrightarrow> \<not> After tj ti))
   \<and> (\<forall>a b. DeactivatedDate a = '''' \<and> DeactivatedDate b = ''''
         \<longrightarrow> \<not> dateLess a b \<and> \<not> dateLess b a)
   \<and> (\<forall>a b. DeactivatedDate a \<noteq> '''' \<and> DeactivatedDate b \<noteq> ''''
            \<and> Parse (DeactivatedDate a) = None \<and> Parse (DeactivatedDate b) = None
         \<longrightarrow> \<not> dateLess a b \<and> \<not> dateLess b a)"
proof -
  have s: "result = slice dateLess employees"
    using assms(2,3) by (simp add: sortByDate_def)
  from assms(1) strictWeakOrder_dateLess
  have perm: "mset result = mset employees"
    and ord: "sorted_wrt (\<lambda>x y. \<not> dateLess y x) result"
    unfolding s sortContract_def by blast+
  have pairs: "\<forall>i j. i < j \<and> j < length result \<longrightarrow>
         (DeactivatedDate (result ! i) = '''' \<longrightarrow> DeactivatedDate (result ! j) = '''')
       \<and> (Parse (DeactivatedDate (result ! j)) \<noteq> None
            \<longrightarrow> Parse (DeactivatedDate (result ! i)) \<noteq> None)
       \<and> (\<forall>ti tj. Parse (DeactivatedDate (result ! i)) = Some ti
                  \<and> Parse (DeactivatedDate (result ! j)) = Some tj \<longrightarrow> \<not> After tj ti)"
  proof (intro allI impI)
    fix i j assume "i < j \<and> j < length result"
    then have "\<not> dateLess (result ! j) (result ! i)"
      using ord by (simp add: sorted_wrt_iff_nth_less)
    then show "(DeactivatedDate (result ! i) = '''' \<longrightarrow> DeactivatedDate (result ! j) = '''')
       \<and> (Parse (DeactivatedDate (result ! j)) \<noteq> None
            \<longrightarrow> Parse (DeactivatedDate (result ! i)) \<noteq> None)
       \<and> (\<forall>ti tj. Parse (DeactivatedDate (result ! i)) = Some ti
                  \<and> Parse (DeactivatedDate (result ! j)) = Some tj \<longrightarrow> \<not> After tj ti)"
      by (rule not_dateLess_order)
  qed
  have empties: "\<forall>a b. DeactivatedDate a = '''' \<and> DeactivatedDate b = ''''
         \<longrightarrow> \<not> dateLess a b \<and> \<not> dateLess b a"
    by (simp add: dateLess_def)
  have unparseable: "\<forall>a b. DeactivatedDate a \<noteq> '''' \<and> DeactivatedDate b \<noteq> ''''
            \<and> Parse (DeactivatedDate a) = None \<and> Parse (DeactivatedDate b) = None
         \<longrightarrow> \<not> dateLess a b \<and> \<not> dateLess b a"
    by (simp add: dateLess_def)
  from perm pairs empties unparseable show ?thesis by blast
qed

text \<open>
  C2 with the insertion sort of the package as the sort, on five records: the dates
  2024-02-29, 2023-06-01 and 2023-01-01 come first in this order, then \<open>n/a\<close>, then the
  empty date.
\<close>

theorem C2_date_sort_order_witness:
  "sortContract (\<lambda>lt x. insertionSort_func lt (x :: EmployeeInfo list) 0 (length x))
   \<and> wantsDateSort ''last hired''
   \<and> mset (sortByDate (\<lambda>lt x. insertionSort_func lt x 0 (length x)) ''last hired''
        [employee ''Ann'' ''A'' '''' '''' True ''2023-01-01'',
         employee ''Bob'' ''B'' '''' '''' False '''',
         employee ''Cyd'' ''C'' '''' '''' True ''n/a'',
         employee ''Dan'' ''D'' '''' '''' True ''2024-02-29'',
         employee ''Eve'' ''E'' '''' '''' True ''2023-06-01''])
     = mset
        [employee ''Ann'' ''A'' '''' '''' True ''2023-01-01'',
         employee ''Bob'' ''B'' '''' '''' False '''',
         employee ''Cyd'' ''C'' '''' '''' True ''n/a'',
         employee ''Dan'' ''D'' '''' '''' True ''2024-02-29'',
         employee ''Eve'' ''E'' '''' '''' True ''2023-06-01'']
   \<and> map FirstName
        (sortByDate (\<lambda>lt x. insertionSort_func lt x 0 (length x)) ''last hired''
          [employee ''Ann'' ''A'' '''' '''' True ''2023-01-01'',
           employee ''Bob'' ''B'' '''' '''' False '''',
           employee ''Cyd'' ''C'' '''' '''' True ''n/a'',
           employee ''Dan'' ''D'' '''' '''' True ''2024-02-29'',
           employee ''Eve'' ''E'' '''' '''' True ''2023-06-01''])
     = [''Dan'', ''Eve'', ''Ann'', ''Cyd'', ''Bob'']"
proof -
  let ?slice = "\<lambda>lt (x :: EmployeeInfo list). insertionSort_func lt x 0 (length x)"
  let ?emps = "[employee ''Ann'' ''A'' '''' '''' True ''2023-01-01'',
         employee ''Bob'' ''B'' '''' '''' False '''',
         employee ''Cyd'' ''C'' '''' '''' True ''n/a'',
         employee ''Dan'' ''D'' '''' '''' True ''2024-02-29'',
         employee ''Eve'' ''E'' '''' '''' True ''2023-06-01'']"
  have contract: "sortContract ?slice"
    by (rule insertionSort_contract)
  have wants: "wantsDateSort ''last hired''"
    by code_simp
  have names: "map FirstName (sortByDate ?slice ''last hired'' ?emps)
               = [''Dan'', ''Eve'', ''Ann'', ''Cyd'', ''Bob'']"
    by code_simp
  from C2_date_sort_order [OF contract wants refl, of ?emps]
  have "mset (sortByDate ?slice ''last hired'' ?emps) = mset ?emps"
    by blast
  with contract wants names show ?thesis by blast
qed

text \<open>
  C3 as stated fails: the date sort is not stable. Twelve records without a date, Ann
  to Lea in this order, are followed by Max, deactivated on 2024-01-01. \<open>sort.Slice\<close>
  takes the quicksort path for 13 elements: the pivot (Gus) is exchanged with the first
  element and Max with the second, so the twelve records, whose dates compare as equal,
  come out in the order Gus, Cyd, Dan, Eve, Fay, Ann, Hal, Ida, Jon, Kim, Lea, Bob. The
  last conjunct is the text \<open>ProcessQuery\<close> returns.
\<close>

theorem C3_unstable_counterexample:
  "wantsDateSort ''recent''
   \<and> length thirteen = 13
   \<and> map FirstName (sortByDate (Slice (\<lambda>n k. 0)) ''recent'' thirteen)
     = [''Max'', ''Gus'', ''Cyd'', ''Dan'', ''Eve'', ''Fay'', ''Ann'', ''Hal'', ''Ida'', ''Jon'',
        ''Kim'', ''Lea'', ''Bob'']
   \<and> map FirstName (filter (dateEquiv (employee ''Ann'' ''A'' '''' '''' False ''''))
        (sortByDate (Slice (\<lambda>n k. 0)) ''recent'' thirteen))
     \<noteq> map FirstName (filter (dateEquiv (employee ''Ann'' ''A'' '''' '''' False '''')) thirteen)
   \<and> ProcessQuery (Slice (\<lambda>n k. 0)) (marshalEmployees thirteen) ''recent''
     = Inr (''Found 13 employees:'' @ [CHR 0x0A, CHR 0x0A]
            @ ''1. Max M (Deactivated on 2024-01-01)'' @ [CHR 0x0A]
            @ ''2. Gus G'' @ [CHR 0x0A] @ ''3. Cyd C'' @ [CHR 0x0A] @ ''4. Dan D'' @ [CHR 0x0A]
            @ ''5. Eve E'' @ [CHR 0x0A] @ ''6. Fay F'' @ [CHR 0x0A] @ ''7. Ann A'' @ [CHR 0x0A]
            @ ''8. Hal H'' @ [CHR 0x0A] @ ''9. Ida I'' @ [CHR 0x0A] @ ''10. Jon J'' @ [CHR 0x0A]
            @ ''11. Kim K'' @ [CHR 0x0A] @ ''12. Lea L'' @ [CHR 0x0A] @ ''13. Bob B'' @ [CHR 0x0A])"
  by code_simp

text \<open>
  C3, amended. For a list of at most 12 records, where \<open>sort.Slice\<close> is an insertion
  sort, the date sort keeps the relative order of the records whose dates compare as
  equal: for every record \<open>e\<close>, the records equal to \<open>e\<close> under the comparison are the
  same list before and after. Two dates compare as equal when both are empty, both are
  non-empty and do not parse, or both parse to the same day. Without a sort keyword the
  list is left as it is, whatever \<open>sort.Slice\<close> does.
\<close>

theorem C3_stable_for_short_lists:
  "(length employees \<le> 12 \<and> wantsDateSort query \<longrightarrow>
      (\<forall>e. filter (dateEquiv e) (sortByDate (Slice random) query employees)
           = filter (dateEquiv e) employees))
   \<and> (\<not> wantsDateSort query \<longrightarrow> sortByDate slice query employees = employees)
   \<and> (dateEquiv a b \<longleftrightarrow>
        (DeactivatedDate a = '''' \<and> DeactivatedDate b = '''')
        \<or> (DeactivatedDate a \<noteq> '''' \<and> DeactivatedDate b \<noteq> ''''
            \<and> Parse (DeactivatedDate a) = None \<and> Parse (DeactivatedDate b) = None)
        \<or> (\<exists>t. Parse (DeactivatedDate a) = Some t \<and> Parse (DeactivatedDate b) = Some t))"
proof -
  have short: "length employees \<le> 12 \<and> wantsDateSort query \<longrightarrow>
      (\<forall>e. filter (dateEquiv e) (sortByDate (Slice random) query employees)
           = filter (dateEquiv e) employees)"
    by (simp add: sortByDate_def stable_short_Slice)
  have unsorted: "\<not> wantsDateSort query \<longrightarrow> sortByDate slice query employees = employees"
    by (simp add: sortByDate_def)
  from short unsorted dateEquiv_classes [of a b] show ?thesis by blast
qed

text \<open>
  The amended C3 on four records: Bob and Dan share a date and stay in this order, and so
  do Ann and Cyd, which have none.
\<close>

theorem C3_stable_for_short_lists_witness:
  "length [employee ''Ann'' ''A'' '''' '''' False '''',
           employee ''Bob'' ''B'' '''' '''' True ''2023-01-01'',
           employee ''Cyd'' ''C'' '''' '''' False '''',
           employee ''Dan'' ''D'' '''' '''' True ''2023-01-01''] \<le> 12
   \<and> wantsDateSort ''most recent''
   \<and> filter (dateEquiv (employee ''Ann'' ''A'' '''' '''' False ''''))
        (sortByDate (Slice (\<lambda>n k. 0)) ''most recent''
          [employee ''Ann'' ''A'' '''' '''' False '''',
           employee ''Bob'' ''B'' '''' '''' True ''2023-01-01'',
           employee ''Cyd'' ''C'' '''' '''' False '''',
           employee ''Dan'' ''D'' '''' '''' True ''2023-01-01''])
     = filter (dateEquiv (employee ''Ann'' ''A'' '''' '''' False ''''))
          [employee ''Ann'' ''A'' '''' '''' False '''',
           employee ''Bob'' ''B'' '''' '''' True ''2023-01-01'',
           employee ''Cyd'' ''C'' '''' '''' False '''',
           employee ''Dan'' ''D'' '''' '''' True ''2023-01-01'']
   \<and> map FirstName
        (sortByDate (Slice (\<lambda>n k. 0)) ''most recent''
          [employee ''Ann'' ''A'' '''' '''' False '''',
           employee ''Bob'' ''B'' '''' '''' True ''2023-01-01'',
           employee ''Cyd'' ''C'' '''' '''' False '''',
           employee ''Dan'' ''D'' '''' '''' True ''2023-01-01''])
     = [''Bob'', ''Dan'', ''Ann'', ''Cyd'']"
proof -
  let ?emps = "[employee ''Ann'' ''A'' '''' '''' False '''',
           employee ''Bob'' ''B'' '''' '''' True ''2023-01-01'',
           employee ''Cyd'' ''C'' '''' '''' False '''',
           employee ''Dan'' ''D'' '''' '''' True ''2023-01-01'']"
  have short: "length ?emps \<le> 12"
    by simp
  have wants: "wantsDateSort ''most recent''"
    by code_simp
  have names: "map FirstName (sortByDate (Slice (\<lambda>n k. 0)) ''most recent'' ?emps)
               = [''Bob'', ''Dan'', ''Ann'', ''Cyd'']"
    by code_simp
  from short wants C3_stable_for_short_lists [of ?emps "''most recent''" "\<lambda>n k. 0"]
  have "filter (dateEquiv (employee ''Ann'' ''A'' '''' '''' False ''''))
          (sortByDate (Slice (\<lambda>n k. 0)) ''most recent'' ?emps)
        = filter (dateEquiv (employee ''Ann'' ''A'' '''' '''' False '''')) ?emps"
    by blast
  with short wants names show ?thesis by blast
qed

end
